theory Spec2Isabelle
  imports Complex_Main "HOL-Library.Word" "HOL-Library.Log_Nat" "HOL-Library.Monad_Syntax"
begin

section \<open>The Fisher-Kolmogorov time-stepping engine (FisherKolmogorov3D.cpp)\<close>

text \<open>
  A shallow embedding of \<^verbatim>\<open>FisherKolmogorov3D::assemble_system\<close>,
  \<^verbatim>\<open>solve_linear_system\<close>, \<^verbatim>\<open>solve_newton\<close>, \<^verbatim>\<open>output\<close> and
  \<^verbatim>\<open>solve\<close>.

  Modelling decisions, all of them visible in the definitions below:
  \<^item> a \<^verbatim>\<open>double\<close> is a \<^typ>\<open>real\<close>: the model is the program under exact arithmetic
    (no rounding, no NaN, no infinity); the loop that builds the element block is
    modelled a second time in binary64 arithmetic, where rounding decides a claim;
  \<^item> an \<^verbatim>\<open>unsigned int\<close> counter (\<^verbatim>\<open>n_iter\<close>, \<^verbatim>\<open>time_step\<close>, the iteration
    caps) is a \<^typ>\<open>32 word\<close>; the loop bounds \<^verbatim>\<open>dofs_per_cell\<close> and \<^verbatim>\<open>n_q\<close> are
    naturals;
  \<^item> a distributed vector is the map from global DoF index to coefficient, a (sparse or
    full) matrix the map from a pair of indices to its entry; the model is the view of a
    single process, where \<^verbatim>\<open>compress(VectorOperation::add)\<close> changes nothing and the
    ghost refresh \<^verbatim>\<open>solution = solution_owned\<close> is a copy;
  \<^item> \<^verbatim>\<open>Tensor<1,3>\<close> and \<^verbatim>\<open>Point<3>\<close> are triples of reals and \<^verbatim>\<open>Tensor<2,3>\<close>
    is a triple of rows;
  \<^item> what \<^verbatim>\<open>fe_values.reinit(cell)\<close> and \<^verbatim>\<open>cell->get_dof_indices\<close> provide for a
    cell is the record \<open>cell\<close>; the members of the class that never change during
    \<^verbatim>\<open>solve\<close> are the record \<open>problem\<close>, the ones that do are the record \<open>state\<close>;
  \<^item> the preconditioned conjugate-gradient solver of the library is the field
    \<open>cg_solve\<close> of the problem; \<open>None\<close> is its exception
    \<^verbatim>\<open>SolverControl::NoConvergence\<close>;
  \<^item> the calls that act on the outside (\<^verbatim>\<open>forcing_term.set_time\<close>, a linear solve,
    an output file) are appended to the field \<open>trace\<close> of the state; console printing
    is not modelled.
\<close>

subsection \<open>Tensors\<close>

type_synonym point = "real \<times> real \<times> real"
type_synonym tensor1 = "real \<times> real \<times> real"
type_synonym tensor2 = "tensor1 \<times> tensor1 \<times> tensor1"
type_synonym vector = "nat \<Rightarrow> real"
type_synonym matrix = "nat \<Rightarrow> nat \<Rightarrow> real"

text \<open>\<^verbatim>\<open>Tensor<1,3> * Tensor<1,3>\<close>: the scalar product.\<close>

fun scalar_product :: "tensor1 \<Rightarrow> tensor1 \<Rightarrow> real" where
  "scalar_product (a1, a2, a3) (b1, b2, b3) = a1 * b1 + a2 * b2 + a3 * b3"

text \<open>\<^verbatim>\<open>Tensor<2,3> * Tensor<1,3>\<close>: the contraction over the last index of the first
  factor, one scalar product per row.\<close>

fun contract :: "tensor2 \<Rightarrow> tensor1 \<Rightarrow> tensor1" where
  "contract (r1, r2, r3) g = (scalar_product r1 g, scalar_product r2 g, scalar_product r3 g)"

fun tensor1_add :: "tensor1 \<Rightarrow> tensor1 \<Rightarrow> tensor1" where
  "tensor1_add (a1, a2, a3) (b1, b2, b3) = (a1 + b1, a2 + b2, a3 + b3)"

fun tensor1_scale :: "real \<Rightarrow> tensor1 \<Rightarrow> tensor1" where
  "tensor1_scale x (a1, a2, a3) = (x * a1, x * a2, x * a3)"

fun symmetric_tensor :: "tensor2 \<Rightarrow> bool" where
  "symmetric_tensor ((a11, a12, a13), (a21, a22, a23), (a31, a32, a33)) =
     (a12 = a21 \<and> a13 = a31 \<and> a23 = a32)"

subsection \<open>Data\<close>

text \<open>What \<^verbatim>\<open>FEValues\<close> and the cell iterator give for one active cell: the flag
  \<^verbatim>\<open>is_locally_owned()\<close>, the global indices of \<^verbatim>\<open>get_dof_indices\<close>, and for a local
  index \<open>i\<close> and a quadrature node \<open>q\<close> the values \<^verbatim>\<open>shape_value(i, q)\<close>,
  \<^verbatim>\<open>shape_grad(i, q)\<close>, \<^verbatim>\<open>JxW(q)\<close> and \<^verbatim>\<open>quadrature_point(q)\<close>.\<close>

record cell =
  is_locally_owned :: bool
  dof_indices :: "nat list"
  shape_value :: "nat \<Rightarrow> nat \<Rightarrow> real"
  shape_grad :: "nat \<Rightarrow> nat \<Rightarrow> tensor1"
  JxW :: "nat \<Rightarrow> real"
  quadrature_point :: "nat \<Rightarrow> point"

datatype error = CG_NoConvergence

datatype event =
    SetForcingTime real
  | LinearSolve
  | Output "32 word" vector

record problem =
  cells :: "cell list"
  dofs_per_cell :: nat
  n_q :: nat
  n_dofs :: nat
  support_point :: "nat \<Rightarrow> point"
  d_value :: "point \<Rightarrow> tensor2"
  forcing_value :: "real \<Rightarrow> point \<Rightarrow> real"
  u_0 :: "point \<Rightarrow> real"
  alpha :: real
  T :: real
  deltat :: real
  max_newton_iterations :: "32 word"
  newton_tolerance :: real
  max_cg_iterations :: "32 word"
  cg_tolerance_factor :: real
  cg_solve :: "matrix \<Rightarrow> vector \<Rightarrow> vector \<Rightarrow> 32 word \<Rightarrow> real \<Rightarrow> vector option"

record state =
  time :: real
  forcing_term_time :: real
  solution_owned :: vector
  solution :: vector
  solution_old :: vector
  delta_owned :: vector
  jacobian_matrix :: matrix
  residual_vector :: vector
  trace :: "event list"

subsection \<open>Library operations the engine calls\<close>

text \<open>\<^verbatim>\<open>fe_values.get_function_values(v, out)\<close>: the finite element field of the
  coefficient vector \<open>v\<close> at every quadrature node of the cell,
  \<open>out[q] = \<Sum>\<^sub>k v(dof_indices[k]) \<cdot> shape_value(k, q)\<close>.\<close>

definition get_function_values :: "problem \<Rightarrow> cell \<Rightarrow> vector \<Rightarrow> nat \<Rightarrow> real" where
  "get_function_values p c v q =
     fold (\<lambda>k acc. acc + v (dof_indices c ! k) * shape_value c k q) [0..<dofs_per_cell p] 0"

text \<open>\<^verbatim>\<open>fe_values.get_function_gradients(v, out)\<close>: its gradient,
  \<open>out[q] = \<Sum>\<^sub>k v(dof_indices[k]) \<cdot> shape_grad(k, q)\<close>.\<close>

definition get_function_gradients :: "problem \<Rightarrow> cell \<Rightarrow> vector \<Rightarrow> nat \<Rightarrow> tensor1" where
  "get_function_gradients p c v q =
     fold (\<lambda>k acc. tensor1_add acc (tensor1_scale (v (dof_indices c ! k)) (shape_grad c k q)))
       [0..<dofs_per_cell p] (0, 0, 0)"

text \<open>\<^verbatim>\<open>jacobian_matrix.add(dof_indices, cell_matrix)\<close> and
  \<^verbatim>\<open>residual_vector.add(dof_indices, cell_residual)\<close>: scatter-add of the element block.\<close>

definition vector_add :: "nat \<Rightarrow> vector \<Rightarrow> nat list \<Rightarrow> vector \<Rightarrow> vector" where
  "vector_add n v idx cell_v =
     fold (\<lambda>i v. v(idx ! i := v (idx ! i) + cell_v i)) [0..<n] v"

definition matrix_add :: "nat \<Rightarrow> matrix \<Rightarrow> nat list \<Rightarrow> matrix \<Rightarrow> matrix" where
  "matrix_add n m idx cell_m =
     fold (\<lambda>i m. fold (\<lambda>j m. m(idx ! i := (m (idx ! i))(idx ! j := m (idx ! i) (idx ! j) + cell_m i j)))
                   [0..<n] m)
       [0..<n] m"

text \<open>\<^verbatim>\<open>v.l2_norm()\<close> of a vector over the DoFs \<open>0, ..., n - 1\<close>.\<close>

definition l2_norm :: "nat \<Rightarrow> vector \<Rightarrow> real" where
  "l2_norm n v = sqrt (\<Sum>g<n. v g * v g)"

text \<open>\<^verbatim>\<open>VectorTools::interpolate(dof_handler, u_0, solution_owned)\<close> for the nodal
  element \<^verbatim>\<open>FE_SimplexP\<close>: the coefficient of a DoF is the value of \<open>u_0\<close> at its
  support point.\<close>

definition interpolate :: "problem \<Rightarrow> vector" where
  "interpolate p = (\<lambda>g. u_0 p (support_point p g))"

subsection \<open>assemble_system\<close>

text \<open>The body of the loop over \<open>j\<close> (lines 138-152): three updates of
  \<^verbatim>\<open>cell_matrix(i, j)\<close>, with the products in the order C++ evaluates them.\<close>

definition jacobian_entry ::
  "problem \<Rightarrow> cell \<Rightarrow> tensor2 \<Rightarrow> (nat \<Rightarrow> real) \<Rightarrow> nat \<Rightarrow> nat \<Rightarrow> nat \<Rightarrow> matrix \<Rightarrow> matrix" where
  "jacobian_entry p c d_loc solution_loc q i j cell_matrix =
     (let cell_matrix = cell_matrix(i := (cell_matrix i)(j := cell_matrix i j +
            shape_value c i q * shape_value c j q / deltat p * JxW c q));
          cell_matrix = cell_matrix(i := (cell_matrix i)(j := cell_matrix i j +
            scalar_product (contract d_loc (shape_grad c i q)) (shape_grad c j q) * JxW c q));
          cell_matrix = cell_matrix(i := (cell_matrix i)(j := cell_matrix i j -
            alpha p * shape_value c i q * (1 - 2 * solution_loc q) * shape_value c j q * JxW c q))
      in cell_matrix)"

text \<open>The four updates of \<^verbatim>\<open>cell_residual(i)\<close> (lines 154-170).\<close>

definition residual_entry ::
  "problem \<Rightarrow> cell \<Rightarrow> tensor2 \<Rightarrow> real \<Rightarrow> (nat \<Rightarrow> real) \<Rightarrow> (nat \<Rightarrow> tensor1) \<Rightarrow> (nat \<Rightarrow> real) \<Rightarrow>
     nat \<Rightarrow> nat \<Rightarrow> vector \<Rightarrow> vector" where
  "residual_entry p c d_loc f_loc solution_loc solution_gradient_loc solution_old_loc q i cell_residual =
     (let cell_residual = cell_residual(i := cell_residual i -
            (solution_loc q - solution_old_loc q) / deltat p * shape_value c i q * JxW c q);
          cell_residual = cell_residual(i := cell_residual i -
            scalar_product (contract d_loc (shape_grad c i q)) (solution_gradient_loc q) * JxW c q);
          cell_residual = cell_residual(i := cell_residual i +
            (alpha p * solution_loc q * (1 - solution_loc q)) * shape_value c i q * JxW c q);
          cell_residual = cell_residual(i := cell_residual i +
            f_loc * shape_value c i q * JxW c q)
      in cell_residual)"

text \<open>The body of the loop over the quadrature nodes (lines 132-172): the coefficients
  at the node, then the loop over \<open>i\<close> with the loop over \<open>j\<close> inside. The forcing term
  is evaluated at the time \<open>tf\<close> its object holds.\<close>

definition quadrature_node ::
  "problem \<Rightarrow> cell \<Rightarrow> real \<Rightarrow> (nat \<Rightarrow> real) \<Rightarrow> (nat \<Rightarrow> tensor1) \<Rightarrow> (nat \<Rightarrow> real) \<Rightarrow>
     nat \<Rightarrow> matrix \<times> vector \<Rightarrow> matrix \<times> vector" where
  "quadrature_node p c tf solution_loc solution_gradient_loc solution_old_loc q acc =
     (let d_loc = d_value p (quadrature_point c q);
          f_loc = forcing_value p tf (quadrature_point c q)
      in fold (\<lambda>i (cell_matrix, cell_residual).
                 (fold (jacobian_entry p c d_loc solution_loc q i) [0..<dofs_per_cell p] cell_matrix,
                  residual_entry p c d_loc f_loc solution_loc solution_gradient_loc
                    solution_old_loc q i cell_residual))
           [0..<dofs_per_cell p] acc)"

text \<open>The element block and the element residual of one cell (lines 123-172).\<close>

definition assemble_cell ::
  "problem \<Rightarrow> real \<Rightarrow> vector \<Rightarrow> vector \<Rightarrow> cell \<Rightarrow> matrix \<times> vector" where
  "assemble_cell p tf sol sol_old c =
     (let solution_loc = get_function_values p c sol;
          solution_gradient_loc = get_function_gradients p c sol;
          solution_old_loc = get_function_values p c sol_old
      in fold (quadrature_node p c tf solution_loc solution_gradient_loc solution_old_loc)
           [0..<n_q p] (\<lambda>_ _. 0, \<lambda>_. 0))"

text \<open>The body of the loop over the cells (lines 119-178).\<close>

definition assemble_on_cell :: "problem \<Rightarrow> cell \<Rightarrow> state \<Rightarrow> state" where
  "assemble_on_cell p c s =
     (if \<not> is_locally_owned c then s
      else (case assemble_cell p (forcing_term_time s) (solution s) (solution_old s) c of
              (cell_matrix, cell_residual) \<Rightarrow>
                s\<lparr>jacobian_matrix :=
                     matrix_add (dofs_per_cell p) (jacobian_matrix s) (dof_indices c) cell_matrix,
                   residual_vector :=
                     vector_add (dofs_per_cell p) (residual_vector s) (dof_indices c) cell_residual\<rparr>))"

definition assemble_system :: "problem \<Rightarrow> state \<Rightarrow> state" where
  "assemble_system p s =
     (let s = s\<lparr>jacobian_matrix := (\<lambda>_ _. 0)\<rparr>;
          s = s\<lparr>residual_vector := (\<lambda>_. 0)\<rparr>;
          s = s\<lparr>forcing_term_time := time s, trace := trace s @ [SetForcingTime (time s)]\<rparr>
      in fold (assemble_on_cell p) (cells p) s)"

subsection \<open>solve_linear_system and solve_newton\<close>

definition solve_linear_system :: "problem \<Rightarrow> state \<Rightarrow> error + state" where
  "solve_linear_system p s =
     (case cg_solve p (jacobian_matrix s) (delta_owned s) (residual_vector s)
             (max_cg_iterations p)
             (cg_tolerance_factor p * l2_norm (n_dofs p) (residual_vector s)) of
        None \<Rightarrow> Inl CG_NoConvergence
      | Some x \<Rightarrow> Inr (s\<lparr>delta_owned := x, trace := trace s @ [LinearSolve]\<rparr>))"

text \<open>\<^verbatim>\<open>solution_owned += delta_owned; solution = solution_owned;\<close>\<close>

definition newton_update :: "state \<Rightarrow> state" where
  "newton_update s =
     (let s = s\<lparr>solution_owned := (\<lambda>g. solution_owned s g + delta_owned s g)\<rparr>
      in s\<lparr>solution := solution_owned s\<rparr>)"

text \<open>The \<^verbatim>\<open>while\<close> loop of \<^verbatim>\<open>solve_newton\<close> on its two local variables and the
  state; it returns the local variables with the state.\<close>

function newton_loop ::
  "problem \<Rightarrow> 32 word \<Rightarrow> real \<Rightarrow> state \<Rightarrow> error + (32 word \<times> real \<times> state)" where
  "newton_loop p n_iter residual_norm s =
     (if n_iter < max_newton_iterations p \<and> residual_norm > newton_tolerance p then
        (let s1 = assemble_system p s;
             residual_norm = l2_norm (n_dofs p) (residual_vector s1)
         in if residual_norm > newton_tolerance p then
              (case solve_linear_system p s1 of
                 Inl e \<Rightarrow> Inl e
               | Inr s2 \<Rightarrow> newton_loop p (n_iter + 1) residual_norm (newton_update s2))
            else newton_loop p (n_iter + 1) residual_norm s1)
      else Inr (n_iter, residual_norm, s))"
  by pat_completeness auto
termination
proof -
  have inc: "unat m - unat (n + 1) < unat m - unat n" if "n < m" for n m :: "32 word"
  proof -
    from that have less: "unat n < unat m"
      by (simp add: word_less_nat_alt)
    moreover have "unat m < 2 ^ LENGTH(32)"
      by (rule unsigned_less)
    ultimately have "unat n + 1 < 2 ^ LENGTH(32)"
      by linarith
    then have "unat (n + 1) = Suc (unat n)"
      by (simp add: unat_word_ariths(1))
    with less show ?thesis
      by linarith
  qed
  show ?thesis
    by (relation "measure (\<lambda>(p, n_iter, residual_norm, s).
                    unat (max_newton_iterations p) - unat n_iter)")
       (auto simp: inc)
qed

text \<open>\<^verbatim>\<open>solve_newton\<close>: the loop entered with \<^verbatim>\<open>n_iter = 0\<close> and
  \<^verbatim>\<open>residual_norm = newton_tolerance + 1\<close>; the function returns nothing but the
  state it leaves.\<close>

definition solve_newton :: "problem \<Rightarrow> state \<Rightarrow> error + state" where
  "solve_newton p s =
     (case newton_loop p 0 (newton_tolerance p + 1) s of
        Inl e \<Rightarrow> Inl e
      | Inr (n_iter, residual_norm, s') \<Rightarrow> Inr s')"

subsection \<open>output and solve\<close>

text \<open>\<^verbatim>\<open>output(time_step)\<close> writes the field \<^verbatim>\<open>solution\<close> under the step's number
  (\<open>output\<close> is a keyword of Isabelle, hence the longer name).\<close>

definition output_step :: "32 word \<Rightarrow> state \<Rightarrow> state" where
  "output_step time_step s = s\<lparr>trace := trace s @ [Output time_step (solution s)]\<rparr>"

text \<open>The \<^verbatim>\<open>while\<close> loop of \<^verbatim>\<open>solve\<close> (lines 259-276). Nothing bounds the number of
  its rounds, so not returning is the value \<open>None\<close>; an exception of the linear solver
  leaves the loop with \<open>Some (Inl e)\<close>.\<close>

partial_function (option) time_loop ::
  "problem \<Rightarrow> 32 word \<Rightarrow> state \<Rightarrow> (error + state) option" where
  "time_loop p time_step s =
     (if time s < T p - 0.5 * deltat p then
        (let s = s\<lparr>time := time s + deltat p\<rparr>;
             time_step = time_step + 1;
             s = s\<lparr>solution_old := solution s\<rparr>
         in case solve_newton p s of
              Inl e \<Rightarrow> Some (Inl e)
            | Inr s' \<Rightarrow> time_loop p time_step (output_step time_step s'))
      else Some (Inr s))"

definition solve :: "problem \<Rightarrow> state \<Rightarrow> (error + state) option" where
  "solve p s =
     (let s = s\<lparr>time := 0\<rparr>;
          s = s\<lparr>solution_owned := interpolate p\<rparr>;
          s = s\<lparr>solution := solution_owned s\<rparr>;
          s = output_step 0 s
      in time_loop p 0 s)"

subsection \<open>Closed forms and examples used by the theorems\<close>

text \<open>What one quadrature node adds to \<^verbatim>\<open>cell_matrix(i, j)\<close>: the mass term, the
  diffusion term and the linearised reaction term.\<close>

definition jacobian_term :: "problem \<Rightarrow> cell \<Rightarrow> (nat \<Rightarrow> real) \<Rightarrow> nat \<Rightarrow> nat \<Rightarrow> nat \<Rightarrow> real" where
  "jacobian_term p c solution_loc q i j =
     shape_value c i q * shape_value c j q / deltat p * JxW c q
     + scalar_product (contract (d_value p (quadrature_point c q)) (shape_grad c i q))
         (shape_grad c j q) * JxW c q
     - alpha p * shape_value c i q * (1 - 2 * solution_loc q) * shape_value c j q * JxW c q"

text \<open>What one quadrature node adds to \<^verbatim>\<open>cell_residual(i)\<close>.\<close>

definition residual_term ::
  "problem \<Rightarrow> cell \<Rightarrow> real \<Rightarrow> (nat \<Rightarrow> real) \<Rightarrow> (nat \<Rightarrow> tensor1) \<Rightarrow> (nat \<Rightarrow> real) \<Rightarrow>
     nat \<Rightarrow> nat \<Rightarrow> real" where
  "residual_term p c tf solution_loc solution_gradient_loc solution_old_loc q i =
     - ((solution_loc q - solution_old_loc q) / deltat p * shape_value c i q * JxW c q)
     - scalar_product (contract (d_value p (quadrature_point c q)) (shape_grad c i q))
         (solution_gradient_loc q) * JxW c q
     + (alpha p * solution_loc q * (1 - solution_loc q)) * shape_value c i q * JxW c q
     + forcing_value p tf (quadrature_point c q) * shape_value c i q * JxW c q"

text \<open>What the loop over the cells reads.\<close>

definition assembly_input :: "state \<Rightarrow> vector \<times> vector \<times> real \<times> matrix \<times> vector" where
  "assembly_input s =
     (solution s, solution_old s, forcing_term_time s, jacobian_matrix s, residual_vector s)"

text \<open>The element residuals of the locally owned cells of a list, scatter-added to a
  vector, with the forcing term taken at the time \<open>tf\<close>.\<close>

definition global_residual ::
  "problem \<Rightarrow> real \<Rightarrow> vector \<Rightarrow> vector \<Rightarrow> cell list \<Rightarrow> vector \<Rightarrow> vector" where
  "global_residual p tf sol sol_old cs r =
     fold (\<lambda>c r. if is_locally_owned c
                  then vector_add (dofs_per_cell p) r (dof_indices c)
                         (snd (assemble_cell p tf sol sol_old c))
                  else r) cs r"

text \<open>The states that \<^verbatim>\<open>solve_newton\<close>, started in \<open>s0\<close>, can be in between two of its
  statements: every state that some sequence of its four state-changing statements
  (\<^verbatim>\<open>assemble_system()\<close>, \<^verbatim>\<open>solve_linear_system()\<close>, \<^verbatim>\<open>solution_owned += delta_owned\<close>,
  \<^verbatim>\<open>solution = solution_owned\<close>) leads to.\<close>

inductive newton_reachable :: "problem \<Rightarrow> state \<Rightarrow> state \<Rightarrow> bool"
  for p :: problem and s0 :: state where
  start: "newton_reachable p s0 s0"
| assembled: "newton_reachable p s0 s \<Longrightarrow> newton_reachable p s0 (assemble_system p s)"
| solved: "newton_reachable p s0 s \<Longrightarrow> solve_linear_system p s = Inr s' \<Longrightarrow>
     newton_reachable p s0 s'"
| added: "newton_reachable p s0 s \<Longrightarrow>
     newton_reachable p s0 (s\<lparr>solution_owned := (\<lambda>g. solution_owned s g + delta_owned s g)\<rparr>)"
| refreshed: "newton_reachable p s0 s \<Longrightarrow>
     newton_reachable p s0 (s\<lparr>solution := solution_owned s\<rparr>)"

code_pred newton_reachable .

text \<open>The step numbers of the output files of a trace, in the order they were written.\<close>

fun output_steps :: "event list \<Rightarrow> 32 word list" where
  "output_steps [] = []"
| "output_steps (Output n v # es) = n # output_steps es"
| "output_steps (e # es) = output_steps es"

text \<open>The coefficient vector \<open>v\<close> represents the constant field \<open>k\<close>: at every
  quadrature node of every locally owned cell its finite element field has the value
  \<open>k\<close> and the gradient zero.\<close>

definition represents_constant :: "problem \<Rightarrow> vector \<Rightarrow> real \<Rightarrow> bool" where
  "represents_constant p v k =
     (\<forall>c\<in>set (cells p). is_locally_owned c \<longrightarrow>
        (\<forall>q\<in>{0..<n_q p}. get_function_values p c v q = k \<and>
                          get_function_gradients p c v q = (0, 0, 0)))"

text \<open>A mesh of one cell with two DoFs and one quadrature node, whose shape functions
  sum to one and whose gradients sum to zero; the identity as diffusion tensor, no
  forcing, and one Jacobi sweep in the place of the linear solver.\<close>

definition example_cell :: cell where
  "example_cell =
     \<lparr>is_locally_owned = True, dof_indices = [0, 1],
      shape_value = (\<lambda>i q. 1 / 2),
      shape_grad = (\<lambda>i q. if i = 0 then (1, 0, 0) else (- 1, 0, 0)),
      JxW = (\<lambda>q. 1), quadrature_point = (\<lambda>q. (0, 0, 0))\<rparr>"

definition example_problem :: problem where
  "example_problem =
     \<lparr>cells = [example_cell], dofs_per_cell = 2, n_q = 1, n_dofs = 2,
      support_point = (\<lambda>g. (0, 0, 0)),
      d_value = (\<lambda>x. ((1, 0, 0), (0, 1, 0), (0, 0, 1))),
      forcing_value = (\<lambda>t x. 0), u_0 = (\<lambda>x. 1),
      alpha = 1, T = 1, deltat = 1,
      max_newton_iterations = 2, newton_tolerance = 1 / 1000000,
      max_cg_iterations = 1000, cg_tolerance_factor = 1 / 1000000,
      cg_solve = (\<lambda>J x r n tol. Some (\<lambda>g. r g / J g g))\<rparr>"

definition example_state :: state where
  "example_state =
     \<lparr>time = 0, forcing_term_time = 0, solution_owned = (\<lambda>_. 0), solution = (\<lambda>_. 0),
      solution_old = (\<lambda>_. 0), delta_owned = (\<lambda>_. 0), jacobian_matrix = (\<lambda>_ _. 0),
      residual_vector = (\<lambda>_. 0), trace = []\<rparr>"

text \<open>The same mesh with the forcing term \<open>f = 1\<close> and a cap of one Newton iteration;
  \<open>jacobi_sweep\<close> is what its linear solver does to the state.\<close>

definition forced_problem :: problem where
  "forced_problem = example_problem\<lparr>forcing_value := (\<lambda>t x. 1), max_newton_iterations := 1\<rparr>"

definition jacobi_sweep :: "state \<Rightarrow> state" where
  "jacobi_sweep s =
     s\<lparr>delta_owned := (\<lambda>g. residual_vector s g / jacobian_matrix s g g),
       trace := trace s @ [LinearSolve]\<rparr>"

text \<open>The example with a forcing term that is the time: \<open>f(x, t) = t\<close>.\<close>

definition timed_problem :: problem where
  "timed_problem = example_problem\<lparr>forcing_value := (\<lambda>t x. t)\<rparr>"

subsection \<open>The element block in double arithmetic\<close>

text \<open>
  The finite values of IEEE 754 binary64, for the one claim that rounding decides. A
  \<open>double\<close> is a pair \<open>(m, e)\<close> of integers that stands for \<open>m \<cdot> 2\<^sup>e\<close>. Every operation
  computes the exact result and rounds it once to 53 significant bits, to nearest, ties
  to even, as the C++ operators on \<^verbatim>\<open>double\<close> do when no two operations are contracted
  into one. The result is \<open>None\<close> where the model does not follow the hardware: a
  division by zero, and a result that is not zero and lies outside the normal range
  \<open>2\<^sup>-\<^sup>1\<^sup>0\<^sup>2\<^sup>2 \<le> |x| < 2\<^sup>1\<^sup>0\<^sup>2\<^sup>4\<close> (the hardware gives an infinity, a NaN or a
  subnormal number there).
\<close>

type_synonym double = "int \<times> int"

definition double_value :: "double \<Rightarrow> real" where
  "double_value d =
     (if 0 \<le> snd d then of_int (fst d * 2 ^ nat (snd d))
      else of_int (fst d) / of_int (2 ^ nat (- snd d)))"

text \<open>Rounding of \<open>m \<cdot> 2\<^sup>e\<close>: the \<open>k\<close> bits of \<open>|m|\<close> beyond the first 53 are cut off, and
  the rest \<open>q\<close> goes up by one when the bits cut off are more than half a unit of \<open>q\<close>, or
  exactly half and \<open>q\<close> is odd.\<close>

definition round_double :: "int \<Rightarrow> int \<Rightarrow> double option" where
  "round_double m e =
     (if m = 0 then Some (0, 0)
      else let k = bitlen \<bar>m\<bar> - 53;
               q = \<bar>m\<bar> div 2 ^ nat k;
               r = \<bar>m\<bar> mod 2 ^ nat k;
               h = 2 ^ nat (k - 1);
               m' = (if k \<le> 0 then m
                     else sgn m * (if h < r \<or> (r = h \<and> odd q) then q + 1 else q));
               e' = (if k \<le> 0 then e else e + k)
           in if - 1022 \<le> bitlen \<bar>m'\<bar> - 1 + e' \<and> bitlen \<bar>m'\<bar> + e' \<le> 1024
              then Some (m', e') else None)"

definition double_mult :: "double \<Rightarrow> double \<Rightarrow> double option" where
  "double_mult a b = round_double (fst a * fst b) (snd a + snd b)"

definition double_add :: "double \<Rightarrow> double \<Rightarrow> double option" where
  "double_add a b =
     (let e = min (snd a) (snd b)
      in round_double (fst a * 2 ^ nat (snd a - e) + fst b * 2 ^ nat (snd b - e)) e)"

definition double_sub :: "double \<Rightarrow> double \<Rightarrow> double option" where
  "double_sub a b = double_add a (- fst b, snd b)"

text \<open>Division: the quotient of the mantissas with at least 56 bits, and one more bit
  that is set when the division leaves a remainder, rounded once.\<close>

definition double_div :: "double \<Rightarrow> double \<Rightarrow> double option" where
  "double_div a b =
     (if fst b = 0 then None
      else if fst a = 0 then Some (0, 0)
      else let K = nat (bitlen \<bar>fst b\<bar>) + 55;
               n = \<bar>fst a\<bar> * 2 ^ K;
               q = n div \<bar>fst b\<bar>;
               r = n mod \<bar>fst b\<bar>
           in round_double (sgn (fst a) * sgn (fst b) * (2 * q + (if r = 0 then 0 else 1)))
                (snd a - snd b - int K - 1))"

type_synonym double_tensor1 = "double \<times> double \<times> double"
type_synonym double_tensor2 = "double_tensor1 \<times> double_tensor1 \<times> double_tensor1"

text \<open>\<^verbatim>\<open>Tensor<1,3> * Tensor<1,3>\<close> and \<^verbatim>\<open>Tensor<2,3> * Tensor<1,3>\<close> in doubles, the
  three products summed from left to right.\<close>

fun double_scalar_product :: "double_tensor1 \<Rightarrow> double_tensor1 \<Rightarrow> double option" where
  "double_scalar_product (a1, a2, a3) (b1, b2, b3) =
     do { x \<leftarrow> double_mult a1 b1; y \<leftarrow> double_mult a2 b2; z \<leftarrow> double_mult a3 b3;
          s \<leftarrow> double_add x y; double_add s z }"

fun double_contract :: "double_tensor2 \<Rightarrow> double_tensor1 \<Rightarrow> double_tensor1 option" where
  "double_contract (r1, r2, r3) g =
     do { x \<leftarrow> double_scalar_product r1 g; y \<leftarrow> double_scalar_product r2 g;
          z \<leftarrow> double_scalar_product r3 g; Some (x, y, z) }"

text \<open>A symmetric \<^verbatim>\<open>Tensor<2,3>\<close> of doubles.\<close>

fun double_symmetric_tensor :: "double_tensor2 \<Rightarrow> bool" where
  "double_symmetric_tensor ((a11, a12, a13), (a21, a22, a23), (a31, a32, a33)) =
     (double_value a12 = double_value a21 \<and> double_value a13 = double_value a31 \<and>
      double_value a23 = double_value a32)"

text \<open>What the loop over the quadrature nodes reads, as doubles: the parameters
  \<^verbatim>\<open>alpha\<close> and \<^verbatim>\<open>deltat\<close>, the tables of \<^verbatim>\<open>fe_values\<close>, the tensor \<^verbatim>\<open>d_loc\<close> of the
  node and the vector \<^verbatim>\<open>solution_loc\<close> that \<^verbatim>\<open>get_function_values\<close> filled.\<close>

record double_cell =
  dofs_per_cell_d :: nat
  n_q_d :: nat
  alpha_d :: double
  deltat_d :: double
  shape_value_d :: "nat \<Rightarrow> nat \<Rightarrow> double"
  shape_grad_d :: "nat \<Rightarrow> nat \<Rightarrow> double_tensor1"
  JxW_d :: "nat \<Rightarrow> double"
  d_loc_d :: "nat \<Rightarrow> double_tensor2"
  solution_loc_d :: "nat \<Rightarrow> double"

text \<open>The body of the loop over \<open>j\<close> (lines 138-152) in doubles: every product, quotient,
  sum and difference of the three statements in the order C++ evaluates it, each rounded.\<close>

definition jacobian_entry_double ::
  "double_cell \<Rightarrow> nat \<Rightarrow> nat \<Rightarrow> nat \<Rightarrow> (nat \<Rightarrow> nat \<Rightarrow> double) \<Rightarrow> (nat \<Rightarrow> nat \<Rightarrow> double) option" where
  "jacobian_entry_double c q i j cell_matrix =
     do { a \<leftarrow> double_mult (shape_value_d c i q) (shape_value_d c j q);
          a \<leftarrow> double_div a (deltat_d c);
          a \<leftarrow> double_mult a (JxW_d c q);
          x \<leftarrow> double_add (cell_matrix i j) a;
          let cell_matrix = cell_matrix(i := (cell_matrix i)(j := x));
          g \<leftarrow> double_contract (d_loc_d c q) (shape_grad_d c i q);
          b \<leftarrow> double_scalar_product g (shape_grad_d c j q);
          b \<leftarrow> double_mult b (JxW_d c q);
          x \<leftarrow> double_add (cell_matrix i j) b;
          let cell_matrix = cell_matrix(i := (cell_matrix i)(j := x));
          r \<leftarrow> double_mult (alpha_d c) (shape_value_d c i q);
          t \<leftarrow> double_mult (2, 0) (solution_loc_d c q);
          t \<leftarrow> double_sub (1, 0) t;
          r \<leftarrow> double_mult r t;
          r \<leftarrow> double_mult r (shape_value_d c j q);
          r \<leftarrow> double_mult r (JxW_d c q);
          x \<leftarrow> double_sub (cell_matrix i j) r;
          Some (cell_matrix(i := (cell_matrix i)(j := x))) }"

text \<open>A loop whose body can leave the model.\<close>

fun fold_option :: "('a \<Rightarrow> 'b \<Rightarrow> 'b option) \<Rightarrow> 'a list \<Rightarrow> 'b \<Rightarrow> 'b option" where
  "fold_option f [] acc = Some acc"
| "fold_option f (x # xs) acc = f x acc \<bind> fold_option f xs"

text \<open>\<^verbatim>\<open>cell_matrix\<close> after the loops over \<open>q\<close>, \<open>i\<close> and \<open>j\<close> (lines 125 and 132-152).\<close>

definition cell_matrix_double :: "double_cell \<Rightarrow> (nat \<Rightarrow> nat \<Rightarrow> double) option" where
  "cell_matrix_double c =
     fold_option
       (\<lambda>q. fold_option
              (\<lambda>i. fold_option (jacobian_entry_double c q i) [0..<dofs_per_cell_d c])
              [0..<dofs_per_cell_d c])
       [0..<n_q_d c] (\<lambda>_ _. (0, 0))"

definition double_entry :: "(nat \<Rightarrow> nat \<Rightarrow> double) option \<Rightarrow> nat \<Rightarrow> nat \<Rightarrow> double option" where
  "double_entry m i j = map_option (\<lambda>m. m i j) m"

text \<open>A cell with two DoFs and one quadrature node: \<^verbatim>\<open>alpha\<close> is the double \<open>0.1\<close>, the
  shape values are the doubles \<open>0.1\<close> and \<open>0.9\<close>, the shape gradients are the unit vectors
  \<open>(1, 0, 0)\<close> and \<open>(0, 1, 0)\<close>, \<^verbatim>\<open>deltat\<close> and \<^verbatim>\<open>JxW\<close> are 1, the diffusion tensor is
  the identity and \<^verbatim>\<open>solution_loc\<close> is 0.\<close>

definition double_example :: double_cell where
  "double_example =
     \<lparr>dofs_per_cell_d = 2, n_q_d = 1,
      alpha_d = (3602879701896397, - 55), deltat_d = (1, 0),
      shape_value_d = (\<lambda>i q. if i = 0 then (3602879701896397, - 55) else (8106479329266893, - 53)),
      shape_grad_d = (\<lambda>i q. if i = 0 then ((1, 0), (0, 0), (0, 0)) else ((0, 0), (1, 0), (0, 0))),
      JxW_d = (\<lambda>q. (1, 0)),
      d_loc_d = (\<lambda>q. (((1, 0), (0, 0), (0, 0)), ((0, 0), (1, 0), (0, 0)), ((0, 0), (0, 0), (1, 0)))),
      solution_loc_d = (\<lambda>q. (0, 0))\<rparr>"

section \<open>The element block and the element residual\<close>

lemma jacobian_entry_apply:
  "jacobian_entry p c (d_value p (quadrature_point c q)) sl q i j m i' j' =
     (if i' = i \<and> j' = j then m i j + jacobian_term p c sl q i j else m i' j')"
  by (simp add: jacobian_entry_def jacobian_term_def Let_def)

lemma residual_entry_apply:
  "residual_entry p c (d_value p (quadrature_point c q)) (forcing_value p tf (quadrature_point c q))
      sl sg so q i r i' =
     (if i' = i then r i + residual_term p c tf sl sg so q i else r i')"
  by (simp add: residual_entry_def residual_term_def Let_def)

lemma fold_jacobian_entry:
  "fold (jacobian_entry p c (d_value p (quadrature_point c q)) sl q i) [0..<n] m i' j' =
     (if i' = i \<and> j' < n then m i j' + jacobian_term p c sl q i j' else m i' j')"
  by (induction n) (auto simp: jacobian_entry_apply)

lemma quadrature_node_apply:
  assumes "quadrature_node p c tf sl sg so q (cm, cr) = (cm', cr')"
  shows "cm' i j = (if i < dofs_per_cell p \<and> j < dofs_per_cell p
                    then cm i j + jacobian_term p c sl q i j else cm i j)"
    and "cr' i = (if i < dofs_per_cell p
                  then cr i + residual_term p c tf sl sg so q i else cr i)"
proof -
  let ?d = "d_value p (quadrature_point c q)"
  let ?f = "forcing_value p tf (quadrature_point c q)"
  let ?body = "\<lambda>i (cell_matrix, cell_residual).
                 (fold (jacobian_entry p c ?d sl q i) [0..<dofs_per_cell p] cell_matrix,
                  residual_entry p c ?d ?f sl sg so q i cell_residual)"
  have gen: "cm2 i j = (if i < k \<and> j < dofs_per_cell p
                        then cm i j + jacobian_term p c sl q i j else cm i j) \<and>
             cr2 i = (if i < k then cr i + residual_term p c tf sl sg so q i else cr i)"
    if "fold ?body [0..<k] (cm, cr) = (cm2, cr2)" for k cm2 cr2
    using that
  proof (induction k arbitrary: cm2 cr2)
    case 0
    then show ?case by simp
  next
    case (Suc k)
    obtain cm1 cr1 where mid: "fold ?body [0..<k] (cm, cr) = (cm1, cr1)"
      by (cases "fold ?body [0..<k] (cm, cr)")
    from Suc.prems mid have
      "cm2 = fold (jacobian_entry p c ?d sl q k) [0..<dofs_per_cell p] cm1"
      "cr2 = residual_entry p c ?d ?f sl sg so q k cr1"
      by simp_all
    with Suc.IH [OF mid] show ?case
      by (auto simp: fold_jacobian_entry residual_entry_apply less_Suc_eq)
  qed
  from assms have "fold ?body [0..<dofs_per_cell p] (cm, cr) = (cm', cr')"
    by (simp add: quadrature_node_def Let_def)
  from gen [OF this]
  show "cm' i j = (if i < dofs_per_cell p \<and> j < dofs_per_cell p
                    then cm i j + jacobian_term p c sl q i j else cm i j)"
    and "cr' i = (if i < dofs_per_cell p
                  then cr i + residual_term p c tf sl sg so q i else cr i)"
    by simp_all
qed

lemma assemble_cell_apply:
  assumes "assemble_cell p tf sol sol_old c = (cm, cr)"
  shows "cm i j = (if i < dofs_per_cell p \<and> j < dofs_per_cell p
                   then (\<Sum>q<n_q p. jacobian_term p c (get_function_values p c sol) q i j) else 0)"
    and "cr i = (if i < dofs_per_cell p
                 then (\<Sum>q<n_q p. residual_term p c tf (get_function_values p c sol)
                         (get_function_gradients p c sol) (get_function_values p c sol_old) q i)
                 else 0)"
proof -
  let ?sl = "get_function_values p c sol" and ?sg = "get_function_gradients p c sol"
    and ?so = "get_function_values p c sol_old"
  have gen: "cm2 i j = (if i < dofs_per_cell p \<and> j < dofs_per_cell p
                        then (\<Sum>q<k. jacobian_term p c ?sl q i j) else 0) \<and>
             cr2 i = (if i < dofs_per_cell p
                      then (\<Sum>q<k. residual_term p c tf ?sl ?sg ?so q i) else 0)"
    if "fold (quadrature_node p c tf ?sl ?sg ?so) [0..<k] (\<lambda>_ _. 0, \<lambda>_. 0) = (cm2, cr2)"
    for k cm2 cr2
    using that
  proof (induction k arbitrary: cm2 cr2)
    case 0
    then show ?case by auto
  next
    case (Suc k)
    obtain cm1 cr1
      where mid: "fold (quadrature_node p c tf ?sl ?sg ?so) [0..<k] (\<lambda>_ _. 0, \<lambda>_. 0) = (cm1, cr1)"
      by (cases "fold (quadrature_node p c tf ?sl ?sg ?so) [0..<k] (\<lambda>_ _. 0, \<lambda>_. 0)")
    from Suc.prems mid have "quadrature_node p c tf ?sl ?sg ?so k (cm1, cr1) = (cm2, cr2)"
      by simp
    then have "cm2 i j = (if i < dofs_per_cell p \<and> j < dofs_per_cell p
                         then cm1 i j + jacobian_term p c ?sl k i j else cm1 i j)"
      and "cr2 i = (if i < dofs_per_cell p
                    then cr1 i + residual_term p c tf ?sl ?sg ?so k i else cr1 i)"
      by (rule quadrature_node_apply)+
    with Suc.IH [OF mid] show ?case
      by auto
  qed
  from assms have "fold (quadrature_node p c tf ?sl ?sg ?so) [0..<n_q p] (\<lambda>_ _. 0, \<lambda>_. 0) = (cm, cr)"
    by (simp add: assemble_cell_def Let_def)
  from gen [OF this]
  show "cm i j = (if i < dofs_per_cell p \<and> j < dofs_per_cell p
                   then (\<Sum>q<n_q p. jacobian_term p c ?sl q i j) else 0)"
    and "cr i = (if i < dofs_per_cell p
                 then (\<Sum>q<n_q p. residual_term p c tf ?sl ?sg ?so q i) else 0)"
    by simp_all
qed

lemma fst_assemble_cell:
  "fst (assemble_cell p tf sol sol_old c) i j =
     (if i < dofs_per_cell p \<and> j < dofs_per_cell p
      then (\<Sum>q<n_q p. jacobian_term p c (get_function_values p c sol) q i j) else 0)"
  by (cases "assemble_cell p tf sol sol_old c") (simp add: assemble_cell_apply(1))

lemma snd_assemble_cell:
  "snd (assemble_cell p tf sol sol_old c) i =
     (if i < dofs_per_cell p
      then (\<Sum>q<n_q p. residual_term p c tf (get_function_values p c sol)
              (get_function_gradients p c sol) (get_function_values p c sol_old) q i)
      else 0)"
  by (cases "assemble_cell p tf sol sol_old c") (simp add: assemble_cell_apply(2))

subsection \<open>Symmetry of the element block\<close>

lemma scalar_product_contract_symmetric:
  "symmetric_tensor D \<Longrightarrow>
     scalar_product (contract D a) b = scalar_product (contract D b) a"
  by (cases D rule: symmetric_tensor.cases; cases a; cases b) (simp add: algebra_simps)

lemma jacobian_term_symmetric:
  "symmetric_tensor (d_value p (quadrature_point c q)) \<Longrightarrow>
     jacobian_term p c sl q i j = jacobian_term p c sl q j i"
  by (simp add: jacobian_term_def scalar_product_contract_symmetric [of _ "shape_grad c i q"])

text \<open>
  Claim C5, as amended. For every cell (locally owned or not), if the diffusion tensor is
  symmetric at every quadrature point of the cell, the element Jacobian block that
  \<^verbatim>\<open>assemble_system\<close> builds for it is symmetric in exact arithmetic:
  \<open>cell_matrix(i, j) = cell_matrix(j, i)\<close> for all \<open>i\<close> and \<open>j\<close> as real numbers, each of
  the mass, diffusion and reaction contributions being symmetric in \<open>i\<close> and \<open>j\<close>.
\<close>

theorem cell_matrix_symmetric:
  assumes "\<forall>q<n_q p. symmetric_tensor (d_value p (quadrature_point c q))"
  shows "fst (assemble_cell p tf sol sol_old c) i j = fst (assemble_cell p tf sol sol_old c) j i"
proof -
  have "(\<Sum>q<n_q p. jacobian_term p c (get_function_values p c sol) q i j) =
        (\<Sum>q<n_q p. jacobian_term p c (get_function_values p c sol) q j i)"
    using assms by (intro sum.cong refl jacobian_term_symmetric) simp
  then show ?thesis
    by (simp add: fst_assemble_cell)
qed

theorem cell_matrix_symmetric_witness:
  "fst (assemble_cell example_problem 0 (\<lambda>_. 1) (\<lambda>_. 0) example_cell) 0 1 =
   fst (assemble_cell example_problem 0 (\<lambda>_. 1) (\<lambda>_. 0) example_cell) 1 0"
  using cell_matrix_symmetric [of example_problem example_cell 0 "\<lambda>_. 1" "\<lambda>_. 0" 0 1]
  by (simp add: example_problem_def)

text \<open>
  The claim C5 as stated has the block exactly symmetric. In doubles it is not: on the
  example cell, whose diffusion tensor is the identity, the statements of lines 140-151
  leave \<open>5836665117072163 \<cdot> 2\<^sup>-\<^sup>5\<^sup>6\<close> (the double \<open>0.081\<close>) in \<open>cell_matrix(0, 1)\<close> and
  \<open>5836665117072164 \<cdot> 2\<^sup>-\<^sup>5\<^sup>6\<close> (the double \<open>0.08100000000000002\<close>) in
  \<open>cell_matrix(1, 0)\<close>. The mass term is the same in both; the reaction term is
  \<open>((alpha \<cdot> \<phi>\<^sub>i) \<cdot> 1) \<cdot> \<phi>\<^sub>j\<close>, rounded after each product, and differs.
\<close>

theorem cell_matrix_double_not_symmetric:
  "double_symmetric_tensor (d_loc_d double_example 0) \<and>
   double_entry (cell_matrix_double double_example) 0 1 = Some (5836665117072163, - 56) \<and>
   double_entry (cell_matrix_double double_example) 1 0 = Some (5836665117072164, - 56) \<and>
   double_value (5836665117072163, - 56) \<noteq> double_value (5836665117072164, - 56)"
proof (intro conjI)
  show "double_symmetric_tensor (d_loc_d double_example 0)"
    by (simp add: double_example_def double_value_def)
  show "double_entry (cell_matrix_double double_example) 0 1 = Some (5836665117072163, - 56)"
    by code_simp
  show "double_entry (cell_matrix_double double_example) 1 0 = Some (5836665117072164, - 56)"
    by code_simp
  show "double_value (5836665117072163, - 56) \<noteq> double_value (5836665117072164, - 56)"
    by (simp add: double_value_def)
qed

section \<open>What assemble_system reads and writes\<close>

lemma assemble_on_cell_frame:
  "time (assemble_on_cell p c s) = time s"
  "forcing_term_time (assemble_on_cell p c s) = forcing_term_time s"
  "solution_owned (assemble_on_cell p c s) = solution_owned s"
  "solution (assemble_on_cell p c s) = solution s"
  "solution_old (assemble_on_cell p c s) = solution_old s"
  "delta_owned (assemble_on_cell p c s) = delta_owned s"
  "trace (assemble_on_cell p c s) = trace s"
  by (simp_all add: assemble_on_cell_def split: prod.split)

lemma fold_assemble_on_cell_frame:
  "time (fold (assemble_on_cell p) cs s) = time s \<and>
   forcing_term_time (fold (assemble_on_cell p) cs s) = forcing_term_time s \<and>
   solution_owned (fold (assemble_on_cell p) cs s) = solution_owned s \<and>
   solution (fold (assemble_on_cell p) cs s) = solution s \<and>
   solution_old (fold (assemble_on_cell p) cs s) = solution_old s \<and>
   delta_owned (fold (assemble_on_cell p) cs s) = delta_owned s \<and>
   trace (fold (assemble_on_cell p) cs s) = trace s"
  by (induction cs arbitrary: s) (simp_all add: assemble_on_cell_frame)

lemma assemble_system_frame:
  "time (assemble_system p s) = time s"
  "forcing_term_time (assemble_system p s) = time s"
  "solution_owned (assemble_system p s) = solution_owned s"
  "solution (assemble_system p s) = solution s"
  "solution_old (assemble_system p s) = solution_old s"
  "delta_owned (assemble_system p s) = delta_owned s"
  "trace (assemble_system p s) = trace s @ [SetForcingTime (time s)]"
  by (simp_all add: assemble_system_def Let_def fold_assemble_on_cell_frame)

lemma assemble_on_cell_input:
  "assembly_input s = assembly_input s' \<Longrightarrow>
     assembly_input (assemble_on_cell p c s) = assembly_input (assemble_on_cell p c s')"
  by (simp add: assembly_input_def assemble_on_cell_def split: prod.split)

lemma fold_assemble_on_cell_input:
  "assembly_input s = assembly_input s' \<Longrightarrow>
     assembly_input (fold (assemble_on_cell p) cs s) =
     assembly_input (fold (assemble_on_cell p) cs s')"
proof (induction cs arbitrary: s s')
  case Nil
  then show ?case by simp
next
  case (Cons c cs)
  from Cons.prems
  have "assembly_input (assemble_on_cell p c s) = assembly_input (assemble_on_cell p c s')"
    by (rule assemble_on_cell_input)
  then have "assembly_input (fold (assemble_on_cell p) cs (assemble_on_cell p c s)) =
             assembly_input (fold (assemble_on_cell p) cs (assemble_on_cell p c s'))"
    by (rule Cons.IH)
  then show ?case
    by simp
qed

lemma assemble_system_input:
  assumes "solution s = solution s'" "solution_old s = solution_old s'" "time s = time s'"
  shows "jacobian_matrix (assemble_system p s) = jacobian_matrix (assemble_system p s')"
    and "residual_vector (assemble_system p s) = residual_vector (assemble_system p s')"
proof -
  have "assembly_input (assemble_system p s) = assembly_input (assemble_system p s')"
    unfolding assemble_system_def Let_def
    by (rule fold_assemble_on_cell_input) (simp add: assembly_input_def assms)
  then show "jacobian_matrix (assemble_system p s) = jacobian_matrix (assemble_system p s')"
    and "residual_vector (assemble_system p s) = residual_vector (assemble_system p s')"
    by (simp_all add: assembly_input_def)
qed

text \<open>
  Claim C7. Assembling twice in succession gives the same global Jacobian and the same
  residual vector as assembling once, and what \<^verbatim>\<open>assemble_system\<close> leaves in the two
  depends on nothing but \<^verbatim>\<open>solution\<close>, \<^verbatim>\<open>solution_old\<close> and \<^verbatim>\<open>time\<close>: two states
  that agree on these three give the same Jacobian and residual, whatever the Jacobian,
  the residual and every other member held before (both are set to zero on entry).
\<close>

theorem assemble_system_idempotent:
  "jacobian_matrix (assemble_system p (assemble_system p s)) =
     jacobian_matrix (assemble_system p s) \<and>
   residual_vector (assemble_system p (assemble_system p s)) =
     residual_vector (assemble_system p s) \<and>
   (solution s' = solution s \<and> solution_old s' = solution_old s \<and> time s' = time s \<longrightarrow>
      jacobian_matrix (assemble_system p s') = jacobian_matrix (assemble_system p s) \<and>
      residual_vector (assemble_system p s') = residual_vector (assemble_system p s))"
  using assemble_system_input [of "assemble_system p s" s p] assemble_system_input [of s' s p]
  by (simp add: assemble_system_frame)

theorem assemble_system_idempotent_witness:
  "jacobian_matrix (assemble_system example_problem
       (example_state\<lparr>delta_owned := (\<lambda>_. 5), jacobian_matrix := (\<lambda>_ _. 7)\<rparr>)) =
     jacobian_matrix (assemble_system example_problem example_state) \<and>
   residual_vector (assemble_system example_problem
       (example_state\<lparr>delta_owned := (\<lambda>_. 5), jacobian_matrix := (\<lambda>_ _. 7)\<rparr>)) =
     residual_vector (assemble_system example_problem example_state)"
  using assemble_system_idempotent [of example_problem example_state
      "example_state\<lparr>delta_owned := (\<lambda>_. 5), jacobian_matrix := (\<lambda>_ _. 7)\<rparr>"]
  by simp

section \<open>The Newton loop\<close>

declare newton_loop.simps [simp del]

lemma solve_linear_system_Inr:
  assumes "solve_linear_system p s = Inr s'"
  shows "\<exists>x. s' = s\<lparr>delta_owned := x, trace := trace s @ [LinearSolve]\<rparr>"
  using assms by (auto simp: solve_linear_system_def split: option.splits)

lemma solve_linear_system_frame:
  assumes "solve_linear_system p s = Inr s'"
  shows "time s' = time s" "forcing_term_time s' = forcing_term_time s"
    "solution_owned s' = solution_owned s" "solution s' = solution s"
    "solution_old s' = solution_old s" "jacobian_matrix s' = jacobian_matrix s"
    "residual_vector s' = residual_vector s" "trace s' = trace s @ [LinearSolve]"
  using solve_linear_system_Inr [OF assms] by auto

lemma newton_update_frame:
  "time (newton_update s) = time s" "forcing_term_time (newton_update s) = forcing_term_time s"
  "solution_owned (newton_update s) = (\<lambda>g. solution_owned s g + delta_owned s g)"
  "solution (newton_update s) = (\<lambda>g. solution_owned s g + delta_owned s g)"
  "solution_old (newton_update s) = solution_old s" "delta_owned (newton_update s) = delta_owned s"
  "jacobian_matrix (newton_update s) = jacobian_matrix s"
  "residual_vector (newton_update s) = residual_vector s" "trace (newton_update s) = trace s"
  by (simp_all add: newton_update_def Let_def)

lemma newton_reachable_update:
  "newton_reachable p s0 s \<Longrightarrow> newton_reachable p s0 (newton_update s)"
  unfolding newton_update_def Let_def
  by (intro refreshed added)

lemma newton_reachable_frame:
  "newton_reachable p s0 s \<Longrightarrow> solution_old s = solution_old s0 \<and> time s = time s0"
  by (induction rule: newton_reachable.induct)
     (simp_all add: assemble_system_frame solve_linear_system_frame)

lemma newton_loop_reachable:
  "newton_loop p n rn s = Inr (n', rn', s') \<Longrightarrow> newton_reachable p s0 s \<Longrightarrow> newton_reachable p s0 s'"
proof (induction p n rn s rule: newton_loop.induct)
  case (1 p n_iter residual_norm s)
  let ?s1 = "assemble_system p s"
  let ?rho = "l2_norm (n_dofs p) (residual_vector ?s1)"
  have r1: "newton_reachable p s0 ?s1"
    using "1.prems"(2) by (rule assembled)
  show ?case
  proof (cases "n_iter < max_newton_iterations p \<and> residual_norm > newton_tolerance p")
    case False
    with "1.prems" show ?thesis
      by (simp add: newton_loop.simps [of p n_iter residual_norm s])
  next
    case enter: True
    show ?thesis
    proof (cases "?rho > newton_tolerance p")
      case False
      with enter "1.prems"(1) have "newton_loop p (n_iter + 1) ?rho ?s1 = Inr (n', rn', s')"
        by (simp add: newton_loop.simps [of p n_iter residual_norm s] Let_def)
      with "1.IH"(2) [OF enter refl refl False] r1 show ?thesis
        by simp
    next
      case True
      with enter "1.prems"(1) obtain s2 where s2: "solve_linear_system p ?s1 = Inr s2"
        and rest: "newton_loop p (n_iter + 1) ?rho (newton_update s2) = Inr (n', rn', s')"
        by (simp add: newton_loop.simps [of p n_iter residual_norm s] Let_def split: sum.splits)
      from r1 s2 have "newton_reachable p s0 (newton_update s2)"
        by (intro newton_reachable_update) (rule solved)
      with "1.IH"(1) [OF enter refl refl True s2] rest show ?thesis
        by simp
    qed
  qed
qed

lemma solve_newton_Inr:
  "solve_newton p s = Inr s' \<longleftrightarrow> (\<exists>n rn. newton_loop p 0 (newton_tolerance p + 1) s = Inr (n, rn, s'))"
  by (auto simp: solve_newton_def split: sum.splits)

subsection \<open>The residual vector and the events of an assembly\<close>

lemma residual_fold_assemble_on_cell:
  "residual_vector (fold (assemble_on_cell p) cs s) =
     global_residual p (forcing_term_time s) (solution s) (solution_old s) cs (residual_vector s)"
proof (induction cs arbitrary: s)
  case Nil
  then show ?case by (simp add: global_residual_def)
next
  case (Cons c cs)
  have "residual_vector (assemble_on_cell p c s) =
          (if is_locally_owned c
           then vector_add (dofs_per_cell p) (residual_vector s) (dof_indices c)
                  (snd (assemble_cell p (forcing_term_time s) (solution s) (solution_old s) c))
           else residual_vector s)"
    by (simp add: assemble_on_cell_def split: prod.split)
  with Cons.IH [of "assemble_on_cell p c s"] show ?case
    by (simp add: global_residual_def assemble_on_cell_frame)
qed

lemma residual_assemble_system:
  "residual_vector (assemble_system p s) =
     global_residual p (time s) (solution s) (solution_old s) (cells p) (\<lambda>_. 0)"
  by (simp add: assemble_system_def Let_def residual_fold_assemble_on_cell)

lemma assemble_system_stale_time:
  "assemble_system p (s\<lparr>forcing_term_time := t'\<rparr>) = assemble_system p s"
  by (simp add: assemble_system_def Let_def)

lemma newton_reachable_trace:
  "newton_reachable p s0 s \<Longrightarrow>
     \<exists>evs. trace s = trace s0 @ evs \<and> set evs \<subseteq> {SetForcingTime (time s0), LinearSolve}"
proof (induction rule: newton_reachable.induct)
  case start
  then show ?case by simp
next
  case (assembled s)
  then obtain evs where "trace s = trace s0 @ evs" "set evs \<subseteq> {SetForcingTime (time s0), LinearSolve}"
    by blast
  moreover from assembled have "time s = time s0"
    by (simp add: newton_reachable_frame)
  ultimately have "trace (assemble_system p s) = trace s0 @ (evs @ [SetForcingTime (time s0)])"
    and "set (evs @ [SetForcingTime (time s0)]) \<subseteq> {SetForcingTime (time s0), LinearSolve}"
    by (simp_all add: assemble_system_frame)
  then show ?case by blast
next
  case (solved s s')
  then obtain evs where "trace s = trace s0 @ evs" "set evs \<subseteq> {SetForcingTime (time s0), LinearSolve}"
    by blast
  with solved have "trace s' = trace s0 @ (evs @ [LinearSolve])"
    and "set (evs @ [LinearSolve]) \<subseteq> {SetForcingTime (time s0), LinearSolve}"
    by (simp_all add: solve_linear_system_frame)
  then show ?case by blast
next
  case (added s)
  then show ?case by simp
next
  case (refreshed s)
  then show ?case by simp
qed

subsection \<open>One round of the two loops\<close>

lemma time_loop_step:
  "time s < T p - 0.5 * deltat p \<Longrightarrow>
     time_loop p ts s =
       (case solve_newton p (s\<lparr>time := time s + deltat p, solution_old := solution s\<rparr>) of
          Inl e \<Rightarrow> Some (Inl e)
        | Inr s' \<Rightarrow> time_loop p (ts + 1) (output_step (ts + 1) s'))"
  by (subst time_loop.simps) (simp add: Let_def)

lemma time_loop_exit:
  "\<not> time s < T p - 0.5 * deltat p \<Longrightarrow> time_loop p ts s = Some (Inr s)"
  by (subst time_loop.simps) simp

text \<open>
  Claim C2. In a round of the loop of \<^verbatim>\<open>solve_newton\<close> (its condition holds on entry),
  the norm that is tested is the norm of the residual \<^verbatim>\<open>assemble_system\<close> has just left.
  If that norm is at most the tolerance, no linear solve is performed: the loop returns
  after this round, with the state \<^verbatim>\<open>assemble_system\<close> left, so \<^verbatim>\<open>solution_owned\<close>
  and \<^verbatim>\<open>solution\<close> are unchanged and the one event of the round is the
  \<^verbatim>\<open>set_time\<close> of the assembly. If the norm exceeds the tolerance, the linear system is
  solved: an exception of the solver ends the loop, otherwise the update
  \<^verbatim>\<open>solution_owned += delta_owned\<close> and the ghost refresh
  \<^verbatim>\<open>solution = solution_owned\<close> follow and the loop goes on.
\<close>

theorem newton_iteration:
  assumes "n_iter < max_newton_iterations p" and "newton_tolerance p < residual_norm"
  shows "(l2_norm (n_dofs p) (residual_vector (assemble_system p s)) \<le> newton_tolerance p \<longrightarrow>
            newton_loop p n_iter residual_norm s =
              Inr (n_iter + 1, l2_norm (n_dofs p) (residual_vector (assemble_system p s)),
                   assemble_system p s) \<and>
            solution_owned (assemble_system p s) = solution_owned s \<and>
            solution (assemble_system p s) = solution s \<and>
            trace (assemble_system p s) = trace s @ [SetForcingTime (time s)]) \<and>
         (newton_tolerance p < l2_norm (n_dofs p) (residual_vector (assemble_system p s)) \<longrightarrow>
            (\<forall>e. solve_linear_system p (assemble_system p s) = Inl e \<longrightarrow>
                   newton_loop p n_iter residual_norm s = Inl e) \<and>
            (\<forall>s2. solve_linear_system p (assemble_system p s) = Inr s2 \<longrightarrow>
                   newton_loop p n_iter residual_norm s =
                     newton_loop p (n_iter + 1)
                       (l2_norm (n_dofs p) (residual_vector (assemble_system p s)))
                       (newton_update s2) \<and>
                   trace (newton_update s2) =
                     trace s @ [SetForcingTime (time s), LinearSolve] \<and>
                   solution_owned (newton_update s2) =
                     (\<lambda>g. solution_owned s g + delta_owned s2 g) \<and>
                   solution (newton_update s2) = solution_owned (newton_update s2)))"
proof (intro conjI impI allI)
  let ?s1 = "assemble_system p s"
  let ?rho = "l2_norm (n_dofs p) (residual_vector ?s1)"
  {
    assume conv: "?rho \<le> newton_tolerance p"
    then have "newton_loop p (n_iter + 1) ?rho ?s1 = Inr (n_iter + 1, ?rho, ?s1)"
      by (simp add: newton_loop.simps [of p "n_iter + 1"])
    with assms conv show "newton_loop p n_iter residual_norm s = Inr (n_iter + 1, ?rho, ?s1)"
      by (simp add: newton_loop.simps [of p n_iter] Let_def)
  }
  show "solution_owned ?s1 = solution_owned s" "solution ?s1 = solution s"
    "trace ?s1 = trace s @ [SetForcingTime (time s)]"
    by (simp_all add: assemble_system_frame)
  {
    fix e
    assume "newton_tolerance p < ?rho" "solve_linear_system p ?s1 = Inl e"
    with assms show "newton_loop p n_iter residual_norm s = Inl e"
      by (simp add: newton_loop.simps [of p n_iter] Let_def)
  }
  {
    fix s2
    assume more: "newton_tolerance p < ?rho" and s2: "solve_linear_system p ?s1 = Inr s2"
    with assms show "newton_loop p n_iter residual_norm s =
        newton_loop p (n_iter + 1) ?rho (newton_update s2)"
      by (simp add: newton_loop.simps [of p n_iter] Let_def)
    from s2 show "trace (newton_update s2) = trace s @ [SetForcingTime (time s), LinearSolve]"
      and "solution_owned (newton_update s2) = (\<lambda>g. solution_owned s g + delta_owned s2 g)"
      and "solution (newton_update s2) = solution_owned (newton_update s2)"
      by (simp_all add: newton_update_frame solve_linear_system_frame assemble_system_frame)
  }
qed

subsection \<open>The loop on the examples\<close>

lemma newton_loop_exit:
  "\<not> (n_iter < max_newton_iterations p \<and> newton_tolerance p < residual_norm) \<Longrightarrow>
     newton_loop p n_iter residual_norm s = Inr (n_iter, residual_norm, s)"
  by (subst newton_loop.simps) (simp only: if_False)

lemma newton_loop_converged:
  assumes "n_iter < max_newton_iterations p" and "newton_tolerance p < residual_norm"
    and "l2_norm (n_dofs p) (residual_vector (assemble_system p s)) \<le> newton_tolerance p"
  shows "newton_loop p n_iter residual_norm s =
           Inr (n_iter + 1, l2_norm (n_dofs p) (residual_vector (assemble_system p s)),
                assemble_system p s)"
proof -
  from assms(3) have "newton_loop p (n_iter + 1)
      (l2_norm (n_dofs p) (residual_vector (assemble_system p s))) (assemble_system p s) =
      Inr (n_iter + 1, l2_norm (n_dofs p) (residual_vector (assemble_system p s)),
           assemble_system p s)"
    by (intro newton_loop_exit) simp
  with assms show ?thesis
    by (simp add: newton_loop.simps [of p n_iter] Let_def)
qed

lemma newton_loop_continue:
  assumes "n_iter < max_newton_iterations p" and "newton_tolerance p < residual_norm"
    and "newton_tolerance p < l2_norm (n_dofs p) (residual_vector (assemble_system p s))"
  shows "newton_loop p n_iter residual_norm s =
           (case solve_linear_system p (assemble_system p s) of
              Inl e \<Rightarrow> Inl e
            | Inr s2 \<Rightarrow> newton_loop p (n_iter + 1)
                (l2_norm (n_dofs p) (residual_vector (assemble_system p s))) (newton_update s2))"
  using assms by (simp add: newton_loop.simps [of p n_iter] Let_def)

lemmas example_defs = example_problem_def example_cell_def example_state_def forced_problem_def

lemmas assembly_defs = assemble_system_def assemble_on_cell_def assemble_cell_def
  quadrature_node_def jacobian_entry_def residual_entry_def get_function_values_def
  get_function_gradients_def vector_add_def matrix_add_def Let_def

lemma example_residual:
  "residual_vector (assemble_system example_problem (example_state\<lparr>time := t\<rparr>)) = (\<lambda>_. 0)"
  by (simp add: example_defs assembly_defs eval_nat_numeral fun_eq_iff)

lemma forced_residual:
  "residual_vector (assemble_system forced_problem (example_state\<lparr>time := t\<rparr>)) =
     (\<lambda>g. if g < 2 then 1 / 2 else 0)"
  by (simp add: example_defs assembly_defs eval_nat_numeral fun_eq_iff)

lemma example_norm:
  "l2_norm (n_dofs example_problem)
     (residual_vector (assemble_system example_problem (example_state\<lparr>time := t\<rparr>))) = 0"
  unfolding example_residual l2_norm_def by simp

lemma forced_norm:
  "newton_tolerance forced_problem <
     l2_norm (n_dofs forced_problem)
       (residual_vector (assemble_system forced_problem (example_state\<lparr>time := t\<rparr>)))"
proof -
  have "(1 / 1000000 :: real) < sqrt (1 / 2)"
    by (rule real_less_rsqrt) (simp add: power2_eq_square)
  moreover have "n_dofs forced_problem = 2" "newton_tolerance forced_problem = 1 / 1000000"
    by (simp_all add: example_defs)
  ultimately show ?thesis
    unfolding forced_residual l2_norm_def
    by (simp add: eval_nat_numeral lessThan_Suc)
qed

lemma forced_solve:
  "solve_linear_system forced_problem s = Inr (jacobi_sweep s)"
  by (simp add: solve_linear_system_def jacobi_sweep_def example_defs)

lemma forced_newton_loop:
  "newton_loop forced_problem 0 (newton_tolerance forced_problem + 1) (example_state\<lparr>time := t\<rparr>) =
     Inr (1, l2_norm (n_dofs forced_problem)
               (residual_vector (assemble_system forced_problem (example_state\<lparr>time := t\<rparr>))),
          newton_update (jacobi_sweep (assemble_system forced_problem (example_state\<lparr>time := t\<rparr>))))"
proof -
  have "(0::32 word) < max_newton_iterations forced_problem"
    and "\<not> (0 + 1 :: 32 word) < max_newton_iterations forced_problem"
    by (simp_all add: example_defs)
  then show ?thesis
    by (simp add: newton_loop_continue forced_norm forced_solve newton_loop_exit)
qed

theorem newton_iteration_witness:
  "newton_loop example_problem 0 (newton_tolerance example_problem + 1) example_state =
     Inr (0 + 1,
          l2_norm (n_dofs example_problem)
            (residual_vector (assemble_system example_problem example_state)),
          assemble_system example_problem example_state) \<and>
   newton_loop forced_problem 0 (newton_tolerance forced_problem + 1) example_state =
     newton_loop forced_problem (0 + 1)
       (l2_norm (n_dofs forced_problem)
          (residual_vector (assemble_system forced_problem example_state)))
       (newton_update (jacobi_sweep (assemble_system forced_problem example_state)))"
proof -
  have "(0::32 word) < max_newton_iterations example_problem"
    and "(0::32 word) < max_newton_iterations forced_problem"
    and "newton_tolerance example_problem < newton_tolerance example_problem + 1"
    and "newton_tolerance forced_problem < newton_tolerance forced_problem + 1"
    by (simp_all add: example_defs)
  moreover have "l2_norm (n_dofs example_problem)
      (residual_vector (assemble_system example_problem example_state)) \<le>
      newton_tolerance example_problem"
    using example_norm [of "time example_state"] by (simp add: example_problem_def)
  moreover have "newton_tolerance forced_problem <
      l2_norm (n_dofs forced_problem) (residual_vector (assemble_system forced_problem example_state))"
    using forced_norm [of "time example_state"] by simp
  ultimately show ?thesis
    using newton_iteration [of 0 example_problem "newton_tolerance example_problem + 1" example_state]
      newton_iteration [of 0 forced_problem "newton_tolerance forced_problem + 1" example_state]
      forced_solve [of "assemble_system forced_problem example_state"]
    by simp
qed

text \<open>
  Claim C6. If the Newton loop of a timestep returns after \<^verbatim>\<open>max_newton_iterations\<close>
  rounds with the residual norm still above the tolerance, \<^verbatim>\<open>solve_newton\<close> returns
  normally (no error value), and the time loop writes the output of that step, with the
  last Newton iterate as \<^verbatim>\<open>solution\<close>, and goes on to its next round from that state.
\<close>

theorem newton_nonconvergence_continues:
  assumes "time sb < T p - 0.5 * deltat p"
    and "newton_loop p 0 (newton_tolerance p + 1)
           (sb\<lparr>time := time sb + deltat p, solution_old := solution sb\<rparr>) = Inr (n, \<rho>, s')"
    and "n = max_newton_iterations p" and "newton_tolerance p < \<rho>"
  shows "solve_newton p (sb\<lparr>time := time sb + deltat p, solution_old := solution sb\<rparr>) = Inr s' \<and>
         time_loop p ts sb = time_loop p (ts + 1) (output_step (ts + 1) s') \<and>
         trace (output_step (ts + 1) s') = trace s' @ [Output (ts + 1) (solution s')] \<and>
         solution (output_step (ts + 1) s') = solution s'"
proof -
  from assms(2)
  have "solve_newton p (sb\<lparr>time := time sb + deltat p, solution_old := solution sb\<rparr>) = Inr s'"
    by (simp add: solve_newton_def)
  with assms(1) show ?thesis
    by (simp add: time_loop_step output_step_def)
qed

theorem newton_nonconvergence_continues_witness:
  "solve_newton forced_problem
     (example_state\<lparr>time := time example_state + deltat forced_problem,
                    solution_old := solution example_state\<rparr>) =
     Inr (newton_update (jacobi_sweep (assemble_system forced_problem (example_state\<lparr>time := 1\<rparr>)))) \<and>
   time_loop forced_problem 0 example_state =
     time_loop forced_problem (0 + 1)
       (output_step (0 + 1)
          (newton_update (jacobi_sweep (assemble_system forced_problem (example_state\<lparr>time := 1\<rparr>)))))"
proof -
  have eq: "example_state\<lparr>time := time example_state + deltat forced_problem,
                          solution_old := solution example_state\<rparr> = example_state\<lparr>time := 1\<rparr>"
    by (simp add: example_defs)
  have "time example_state < T forced_problem - 0.5 * deltat forced_problem"
    and "(1::32 word) = max_newton_iterations forced_problem"
    by (simp_all add: example_defs)
  with newton_nonconvergence_continues [of example_state forced_problem 1
      "l2_norm (n_dofs forced_problem)
         (residual_vector (assemble_system forced_problem (example_state\<lparr>time := 1\<rparr>)))"
      "newton_update (jacobi_sweep (assemble_system forced_problem (example_state\<lparr>time := 1\<rparr>)))" 0]
    forced_newton_loop [of 1] forced_norm [of 1]
  show ?thesis
    by (simp add: eq)
qed

text \<open>
  Claim C8, as amended. In every state that \<^verbatim>\<open>solve_newton\<close> can be in during a
  timestep (after any of its calls to \<^verbatim>\<open>assemble_system\<close> and
  \<^verbatim>\<open>solve_linear_system\<close> and after either statement of the update), and in the state
  it returns, \<^verbatim>\<open>solution_old\<close> is the snapshot of \<^verbatim>\<open>solution\<close> taken at the start of
  the timestep and \<^verbatim>\<open>time\<close> is the time of the step. The members that change are
  \<^verbatim>\<open>solution_owned\<close>, \<^verbatim>\<open>solution\<close>, \<^verbatim>\<open>delta_owned\<close>, the Jacobian, the residual
  vector and the time held by \<^verbatim>\<open>forcing_term\<close>.
\<close>

theorem newton_frame:
  "(newton_reachable p (sb\<lparr>time := time sb + deltat p, solution_old := solution sb\<rparr>) s \<longrightarrow>
      solution_old s = solution sb \<and> time s = time sb + deltat p) \<and>
   (solve_newton p (sb\<lparr>time := time sb + deltat p, solution_old := solution sb\<rparr>) = Inr s' \<longrightarrow>
      newton_reachable p (sb\<lparr>time := time sb + deltat p, solution_old := solution sb\<rparr>) s')"
  using newton_reachable_frame [of p "sb\<lparr>time := time sb + deltat p, solution_old := solution sb\<rparr>" s]
    newton_loop_reachable [of p 0 "newton_tolerance p + 1" _ _ _ s', OF _ start]
  by (auto simp: solve_newton_Inr)

theorem newton_frame_witness:
  "solution_old (assemble_system forced_problem
      (example_state\<lparr>time := time example_state + deltat forced_problem,
                     solution_old := solution example_state\<rparr>)) = solution example_state \<and>
   newton_reachable forced_problem
     (example_state\<lparr>time := time example_state + deltat forced_problem,
                    solution_old := solution example_state\<rparr>)
     (newton_update (jacobi_sweep (assemble_system forced_problem (example_state\<lparr>time := 1\<rparr>))))"
proof -
  let ?s0 = "example_state\<lparr>time := time example_state + deltat forced_problem,
                           solution_old := solution example_state\<rparr>"
  have eq: "?s0 = example_state\<lparr>time := 1\<rparr>"
    by (simp add: example_defs)
  have "newton_reachable forced_problem ?s0 (assemble_system forced_problem ?s0)"
    by (intro assembled start)
  moreover have "solve_newton forced_problem ?s0 =
      Inr (newton_update (jacobi_sweep (assemble_system forced_problem (example_state\<lparr>time := 1\<rparr>))))"
    by (simp add: eq solve_newton_def forced_newton_loop)
  ultimately show ?thesis
    using newton_frame [of forced_problem example_state "assemble_system forced_problem ?s0"
        "newton_update (jacobi_sweep (assemble_system forced_problem (example_state\<lparr>time := 1\<rparr>)))"]
    by simp
qed

text \<open>
  The claim C8 as stated lists the members that are mutated and leaves out the forcing
  term: \<^verbatim>\<open>assemble_system\<close> calls \<^verbatim>\<open>forcing_term.set_time(time)\<close>. On the example, started
  at time 1 with the forcing term still holding time 0, \<^verbatim>\<open>solve_newton\<close> returns a state
  in which the forcing term holds time 1.
\<close>

theorem forcing_term_mutated:
  "map_sum id forcing_term_time (solve_newton example_problem (example_state\<lparr>time := 1\<rparr>)) = Inr 1 \<and>
   forcing_term_time (example_state\<lparr>time := 1\<rparr>) = 0"
proof -
  have "(0::32 word) < max_newton_iterations example_problem"
    and "newton_tolerance example_problem < newton_tolerance example_problem + 1"
    and "0 \<le> newton_tolerance example_problem"
    by (simp_all add: example_defs)
  then have "newton_loop example_problem 0 (newton_tolerance example_problem + 1)
      (example_state\<lparr>time := 1\<rparr>) =
      Inr (0 + 1, l2_norm (n_dofs example_problem)
             (residual_vector (assemble_system example_problem (example_state\<lparr>time := 1\<rparr>))),
           assemble_system example_problem (example_state\<lparr>time := 1\<rparr>))"
    by (intro newton_loop_converged) (simp_all add: example_norm)
  then show ?thesis
    by (simp add: solve_newton_def assemble_system_frame example_state_def)
qed

section \<open>The time loop\<close>

text \<open>
  Claim C10. If \<open>T < 0.5 \<cdot> deltat\<close>, \<^verbatim>\<open>solve\<close> runs no timestep: it returns the state in
  which \<^verbatim>\<open>time\<close> is 0, \<^verbatim>\<open>solution_owned\<close> and \<^verbatim>\<open>solution\<close> are the interpolated
  initial condition and the one new event is the output file of step 0; no assembly, no
  linear solve and no other output happen, and no other member changes.
\<close>

theorem no_timestep:
  assumes "T p < 0.5 * deltat p"
  shows "solve p s =
           Some (Inr (s\<lparr>time := 0, solution_owned := interpolate p, solution := interpolate p,
                        trace := trace s @ [Output 0 (interpolate p)]\<rparr>))"
  using assms by (simp add: solve_def Let_def output_step_def time_loop_exit)

theorem no_timestep_witness:
  "solve (example_problem\<lparr>T := 0\<rparr>) example_state =
     Some (Inr (example_state\<lparr>time := 0, solution_owned := interpolate (example_problem\<lparr>T := 0\<rparr>),
                  solution := interpolate (example_problem\<lparr>T := 0\<rparr>),
                  trace := trace example_state @ [Output 0 (interpolate (example_problem\<lparr>T := 0\<rparr>))]\<rparr>))"
  using no_timestep [of "example_problem\<lparr>T := 0\<rparr>" example_state]
  by (simp add: example_problem_def)

subsection \<open>The time loop ends\<close>

lemma output_steps_append: "output_steps (es @ fs) = output_steps es @ output_steps fs"
  by (induction es rule: output_steps.induct) simp_all

lemma output_steps_newton:
  "set evs \<subseteq> {SetForcingTime t, LinearSolve} \<Longrightarrow> output_steps evs = []"
  by (induction evs rule: output_steps.induct) simp_all

lemma solve_newton_effect:
  assumes "solve_newton p s = Inr s'"
  shows "time s' = time s" and "solution_old s' = solution_old s"
    and "output_steps (trace s') = output_steps (trace s)"
proof -
  from assms have r: "newton_reachable p s s'"
    using newton_loop_reachable [OF _ start] by (auto simp: solve_newton_Inr)
  then show "time s' = time s" and "solution_old s' = solution_old s"
    by (simp_all add: newton_reachable_frame)
  from newton_reachable_trace [OF r] show "output_steps (trace s') = output_steps (trace s)"
    by (auto simp: output_steps_append output_steps_newton)
qed

lemma newton_loop_total:
  assumes "\<forall>J x r n tol. cg_solve p J x r n tol \<noteq> None"
  shows "\<exists>res. newton_loop p n_iter residual_norm s = Inr res"
  using assms
proof (induction p n_iter residual_norm s rule: newton_loop.induct)
  case (1 p n_iter residual_norm s)
  let ?s1 = "assemble_system p s"
  let ?rho = "l2_norm (n_dofs p) (residual_vector ?s1)"
  show ?case
  proof (cases "n_iter < max_newton_iterations p \<and> residual_norm > newton_tolerance p")
    case False
    then show ?thesis
      by (simp add: newton_loop_exit)
  next
    case enter: True
    show ?thesis
    proof (cases "?rho > newton_tolerance p")
      case False
      with enter show ?thesis
        by (simp add: newton_loop_converged)
    next
      case True
      from "1.prems" obtain x where "cg_solve p (jacobian_matrix ?s1) (delta_owned ?s1)
          (residual_vector ?s1) (max_cg_iterations p) (cg_tolerance_factor p * ?rho) = Some x"
        by blast
      then obtain s2 where s2: "solve_linear_system p ?s1 = Inr s2"
        by (simp add: solve_linear_system_def)
      with "1.IH"(1) [OF enter refl refl True s2] "1.prems" enter True show ?thesis
        by (simp add: newton_loop_continue)
    qed
  qed
qed

lemma solve_newton_total:
  "\<forall>J x r n tol. cg_solve p J x r n tol \<noteq> None \<Longrightarrow> \<exists>s'. solve_newton p s = Inr s'"
  using newton_loop_total [of p 0 "newton_tolerance p + 1" s]
  by (auto simp: solve_newton_def)

lemma time_loop_terminates:
  assumes "0 < deltat p" and "T p - 0.5 * deltat p - time s \<le> real n * deltat p"
  shows "\<exists>r. time_loop p ts s = Some r \<and>
           ((\<forall>J x r n tol. cg_solve p J x r n tol \<noteq> None) \<longrightarrow> (\<exists>s'. r = Inr s')) \<and>
           (\<forall>s'. r = Inr s' \<longrightarrow>
              (\<exists>k. time s' = time s + real k * deltat p \<and>
                   output_steps (trace s') =
                     output_steps (trace s) @ map (\<lambda>i. ts + of_nat i) [1..<Suc k] \<and>
                   \<not> time s' < T p - 0.5 * deltat p \<and>
                   (0 < k \<longrightarrow> time s' - deltat p < T p - 0.5 * deltat p)))"
  using assms(2)
proof (induction n arbitrary: s ts)
  case 0
  then have "time_loop p ts s = Some (Inr s)"
    by (intro time_loop_exit) simp
  moreover have "time s = time s + real 0 * deltat p"
    "output_steps (trace s) = output_steps (trace s) @ map (\<lambda>i. ts + of_nat i) [1..<Suc 0]"
    "\<not> time s < T p - 0.5 * deltat p"
    using 0 by simp_all
  ultimately show ?case
    by blast
next
  case (Suc n)
  show ?case
  proof (cases "time s < T p - 0.5 * deltat p")
    case False
    then have "time_loop p ts s = Some (Inr s)"
      by (rule time_loop_exit)
    moreover have "time s = time s + real 0 * deltat p"
      "output_steps (trace s) = output_steps (trace s) @ map (\<lambda>i. ts + of_nat i) [1..<Suc 0]"
      by simp_all
    ultimately show ?thesis
      using False by blast
  next
    case True
    let ?s1 = "s\<lparr>time := time s + deltat p, solution_old := solution s\<rparr>"
    show ?thesis
    proof (cases "solve_newton p ?s1")
      case (Inl e)
      with True have "time_loop p ts s = Some (Inl e)"
        by (simp add: time_loop_step)
      moreover have "\<not> (\<forall>J x r n tol. cg_solve p J x r n tol \<noteq> None)"
      proof
        assume "\<forall>J x r n tol. cg_solve p J x r n tol \<noteq> None"
        then obtain s' where "solve_newton p ?s1 = Inr s'"
          using solve_newton_total [of p ?s1] by blast
        with Inl show False
          by simp
      qed
      ultimately show ?thesis
        by blast
    next
      case (Inr s2)
      let ?s3 = "output_step (ts + 1) s2"
      from solve_newton_effect [OF Inr]
      have t3: "time ?s3 = time s + deltat p"
        and o3: "output_steps (trace ?s3) = output_steps (trace s) @ [ts + 1]"
        by (simp_all add: output_step_def output_steps_append)
      from Suc.prems have "T p - 0.5 * deltat p - (time s + deltat p) \<le> real n * deltat p"
        by (simp add: algebra_simps)
      then have "T p - 0.5 * deltat p - time ?s3 \<le> real n * deltat p"
        by (simp only: t3)
      from Suc.IH [OF this, of "ts + 1"] obtain r
        where r: "time_loop p (ts + 1) ?s3 = Some r"
          and tot: "(\<forall>J x r n tol. cg_solve p J x r n tol \<noteq> None) \<longrightarrow> (\<exists>s'. r = Inr s')"
          and fin: "\<forall>s'. r = Inr s' \<longrightarrow>
              (\<exists>k. time s' = time ?s3 + real k * deltat p \<and>
                   output_steps (trace s') =
                     output_steps (trace ?s3) @ map (\<lambda>i. ts + 1 + of_nat i) [1..<Suc k] \<and>
                   \<not> time s' < T p - 0.5 * deltat p \<and>
                   (0 < k \<longrightarrow> time s' - deltat p < T p - 0.5 * deltat p))"
        by blast
      from True Inr r have loop: "time_loop p ts s = Some r"
        by (simp add: time_loop_step)
      have "\<exists>k. time s' = time s + real k * deltat p \<and>
                   output_steps (trace s') =
                     output_steps (trace s) @ map (\<lambda>i. ts + of_nat i) [1..<Suc k] \<and>
                   \<not> time s' < T p - 0.5 * deltat p \<and>
                   (0 < k \<longrightarrow> time s' - deltat p < T p - 0.5 * deltat p)"
        if "r = Inr s'" for s'
      proof -
        from fin that obtain k where k: "time s' = time ?s3 + real k * deltat p"
          "output_steps (trace s') =
             output_steps (trace ?s3) @ map (\<lambda>i. ts + 1 + of_nat i) [1..<Suc k]"
          "\<not> time s' < T p - 0.5 * deltat p"
          "0 < k \<longrightarrow> time s' - deltat p < T p - 0.5 * deltat p"
          by blast
        have "map (\<lambda>i. ts + of_nat i) [1..<Suc (Suc k)] =
                (ts + 1) # map (\<lambda>i. ts + of_nat i) (map Suc [1..<Suc k])"
          by (simp add: upt_conv_Cons map_Suc_upt del: upt_Suc)
        also have "\<dots> = (ts + 1) # map (\<lambda>i. ts + 1 + of_nat i) [1..<Suc k]"
          by (simp add: algebra_simps)
        finally have "output_steps (trace s') =
            output_steps (trace s) @ map (\<lambda>i. ts + of_nat i) [1..<Suc (Suc k)]"
          using k(2) o3 by simp
        moreover have "time s' = time s + real (Suc k) * deltat p"
          using k(1) t3 by (simp add: algebra_simps)
        moreover have "time s' - deltat p < T p - 0.5 * deltat p"
        proof (cases "0 < k")
          case True
          with k(4) show ?thesis by simp
        next
          case False
          with k(1) t3 \<open>time s < T p - 0.5 * deltat p\<close> show ?thesis by simp
        qed
        ultimately show ?thesis
          using k(3) by blast
      qed
      with loop tot show ?thesis
        by blast
    qed
  qed
qed

lemma example_cg_total: "\<forall>J x r n tol. cg_solve example_problem J x r n tol \<noteq> None"
  by (simp add: example_problem_def)

text \<open>
  Claim C4. In exact arithmetic, for \<open>T > 0\<close> and \<open>deltat > 0\<close>, \<^verbatim>\<open>solve\<close> returns: the
  time loop starts at time 0, runs a timestep (which advances the time by \<open>deltat\<close>)
  exactly while \<open>time < T - 0.5 \<cdot> deltat\<close>, and stops. When no linear solve throws, it
  returns normally, after some number \<open>k\<close> of timesteps, numbered \<open>1, \<dots>, k\<close> in the
  output after the output of step 0, at the time \<open>k \<cdot> deltat\<close>, and this final time is at
  least \<open>T - deltat / 2\<close> and less than \<open>T + deltat / 2\<close>. When \<open>deltat = T\<close> there is
  exactly one timestep.
\<close>

theorem time_loop_final_time:
  assumes "0 < T p" and "0 < deltat p"
  shows "\<exists>r. solve p s = Some r \<and>
           ((\<forall>J x r n tol. cg_solve p J x r n tol \<noteq> None) \<longrightarrow> (\<exists>s'. r = Inr s')) \<and>
           (\<forall>s'. r = Inr s' \<longrightarrow>
              T p - deltat p / 2 \<le> time s' \<and> time s' < T p + deltat p / 2 \<and>
              (\<exists>k. time s' = real k * deltat p \<and>
                   output_steps (trace s') = output_steps (trace s) @ map of_nat [0..<Suc k]) \<and>
              (deltat p = T p \<longrightarrow>
                 time s' = T p \<and> output_steps (trace s') = output_steps (trace s) @ [0, 1]))"
proof -
  let ?s0 = "output_step 0 (s\<lparr>time := 0, solution_owned := interpolate p, solution := interpolate p\<rparr>)"
  have solve: "solve p s = time_loop p 0 ?s0"
    by (simp add: solve_def Let_def)
  have t0: "time ?s0 = 0" and o0: "output_steps (trace ?s0) = output_steps (trace s) @ [0]"
    by (simp_all add: output_step_def output_steps_append)
  obtain n where "(T p - 0.5 * deltat p - time ?s0) / deltat p \<le> real n"
    using real_arch_simple by blast
  with assms(2) have "T p - 0.5 * deltat p - time ?s0 \<le> real n * deltat p"
    by (simp add: pos_divide_le_eq)
  from time_loop_terminates [OF assms(2) this, of 0] obtain r
    where r: "time_loop p 0 ?s0 = Some r"
      and tot: "(\<forall>J x r n tol. cg_solve p J x r n tol \<noteq> None) \<longrightarrow> (\<exists>s'. r = Inr s')"
      and fin: "\<forall>s'. r = Inr s' \<longrightarrow>
              (\<exists>k. time s' = time ?s0 + real k * deltat p \<and>
                   output_steps (trace s') =
                     output_steps (trace ?s0) @ map (\<lambda>i. 0 + of_nat i) [1..<Suc k] \<and>
                   \<not> time s' < T p - 0.5 * deltat p \<and>
                   (0 < k \<longrightarrow> time s' - deltat p < T p - 0.5 * deltat p))"
    by blast
  have "T p - deltat p / 2 \<le> time s' \<and> time s' < T p + deltat p / 2 \<and>
        (\<exists>k. time s' = real k * deltat p \<and>
             output_steps (trace s') = output_steps (trace s) @ map of_nat [0..<Suc k]) \<and>
        (deltat p = T p \<longrightarrow>
           time s' = T p \<and> output_steps (trace s') = output_steps (trace s) @ [0, 1])"
    if "r = Inr s'" for s'
  proof -
    from fin that obtain k where raw: "time s' = time ?s0 + real k * deltat p"
      "output_steps (trace s') =
         output_steps (trace ?s0) @ map (\<lambda>i. 0 + of_nat i) [1..<Suc k]"
      and k: "\<not> time s' < T p - 0.5 * deltat p"
      "0 < k \<longrightarrow> time s' - deltat p < T p - 0.5 * deltat p"
      by blast
    from raw(1) have tk: "time s' = real k * deltat p"
      by (simp add: t0)
    from raw(2) have ok: "output_steps (trace s') = output_steps (trace ?s0) @ map of_nat [1..<Suc k]"
      by (simp del: upt_Suc)
    have "[0..<Suc k] = 0 # [1..<Suc k]"
      by (simp add: upt_conv_Cons del: upt_Suc)
    then have outs: "output_steps (trace s') = output_steps (trace s) @ map of_nat [0..<Suc k]"
      using ok o0 by (simp del: upt_Suc)
    have lower: "T p - deltat p / 2 \<le> time s'"
      using k(1) by simp
    have upper: "time s' < T p + deltat p / 2"
    proof (cases "0 < k")
      case True
      with k(2) show ?thesis by simp
    next
      case False
      with tk assms show ?thesis by simp
    qed
    have one: "k = 1" if eq: "deltat p = T p"
    proof -
      from lower upper have a: "1 / 2 * T p \<le> real k * T p" "real k * T p < 3 / 2 * T p"
        by (simp_all add: tk eq)
      from a(1) assms(1) have "1 / 2 \<le> real k"
        by (rule mult_right_le_imp_le)
      moreover from a(2) have "real k < 3 / 2"
        by (rule mult_right_less_imp_less) (use assms(1) in simp)
      ultimately show ?thesis
        by linarith
    qed
    have "time s' = T p \<and> output_steps (trace s') = output_steps (trace s) @ [0, 1]"
      if eq: "deltat p = T p"
      using one [OF eq] tk outs eq by (simp add: eval_nat_numeral)
    with lower upper outs tk show ?thesis
      by blast
  qed
  with r tot solve show ?thesis
    by simp
qed

theorem time_loop_final_time_witness:
  "\<exists>s'. solve example_problem example_state = Some (Inr s') \<and> time s' = 1 \<and>
        output_steps (trace s') = [0, 1]"
proof -
  have "0 < T example_problem" "0 < deltat example_problem"
    "deltat example_problem = T example_problem" "T example_problem = 1"
    "output_steps (trace example_state) = []"
    by (simp_all add: example_defs)
  with time_loop_final_time [of example_problem example_state] example_cg_total
  show ?thesis
    by fastforce
qed

subsection \<open>Constant solutions\<close>

lemma scalar_product_zero: "scalar_product a (0, 0, 0) = 0"
  by (cases a) simp

lemma vector_add_zero: "vector_add n v idx (\<lambda>_. 0) = v"
  unfolding vector_add_def by (induction n) simp_all

lemma get_function_values_zero: "get_function_values p c (\<lambda>_. 0) q = 0"
proof -
  have "fold (\<lambda>k acc. acc + (0::real) * shape_value c k q) [0..<n] 0 = 0" for n
    by (induction n) simp_all
  then show ?thesis
    by (simp add: get_function_values_def)
qed

lemma get_function_gradients_zero: "get_function_gradients p c (\<lambda>_. 0) q = (0, 0, 0)"
proof -
  have "fold (\<lambda>k acc. tensor1_add acc (tensor1_scale 0 (shape_grad c k q))) [0..<n] (0, 0, 0) =
          (0, 0, 0)" for n
  proof (induction n)
    case 0
    then show ?case by simp
  next
    case (Suc n)
    then show ?case by (cases "shape_grad c n q") simp
  qed
  then show ?thesis
    by (simp add: get_function_gradients_def)
qed

lemma represents_zero: "represents_constant p (\<lambda>_. 0) 0"
  by (simp add: represents_constant_def get_function_values_zero get_function_gradients_zero)

lemma constant_residual_term:
  assumes "\<forall>t x. forcing_value p t x = 0" and "k = 0 \<or> k = 1"
    and "sl q = k" and "sg q = (0, 0, 0)" and "so q = k"
  shows "residual_term p c tf sl sg so q i = 0"
proof -
  from assms(1) have "forcing_value p tf (quadrature_point c q) = 0"
    by blast
  with assms(2-) show ?thesis
    by (auto simp: residual_term_def scalar_product_zero)
qed

lemma constant_global_residual:
  assumes "\<forall>t x. forcing_value p t x = 0" and "k = 0 \<or> k = 1"
    and "represents_constant p sol k" and "represents_constant p sol_old k"
    and "set cs \<subseteq> set (cells p)"
  shows "global_residual p tf sol sol_old cs (\<lambda>_. 0) = (\<lambda>_. 0)"
  using assms(5)
proof (induction cs)
  case Nil
  then show ?case by (simp add: global_residual_def)
next
  case (Cons c cs)
  have "snd (assemble_cell p tf sol sol_old c) = (\<lambda>_. 0)" if "is_locally_owned c"
  proof
    fix i
    from that Cons.prems assms(3,4)
    have "residual_term p c tf (get_function_values p c sol) (get_function_gradients p c sol)
            (get_function_values p c sol_old) q i = 0" if "q < n_q p" for q
      using that by (intro constant_residual_term [OF assms(1,2)])
        (simp_all add: represents_constant_def)
    then show "snd (assemble_cell p tf sol sol_old c) i = 0"
      by (simp add: snd_assemble_cell)
  qed
  with Cons show ?case
    by (simp add: global_residual_def vector_add_zero)
qed

lemma l2_norm_zero: "l2_norm n (\<lambda>_. 0) = 0"
  by (simp add: l2_norm_def)

lemma constant_newton:
  assumes "\<forall>t x. forcing_value p t x = 0" and "k = 0 \<or> k = 1"
    and "represents_constant p (solution s) k" and "represents_constant p (solution_old s) k"
    and "0 \<le> newton_tolerance p"
  shows "\<exists>s'. solve_newton p s = Inr s' \<and> solution s' = solution s \<and>
           solution_owned s' = solution_owned s \<and>
           (trace s' = trace s \<or> trace s' = trace s @ [SetForcingTime (time s)])"
proof (cases "0 < max_newton_iterations p")
  case False
  then have "newton_loop p 0 (newton_tolerance p + 1) s = Inr (0, newton_tolerance p + 1, s)"
    by (intro newton_loop_exit) simp
  then show ?thesis
    by (simp add: solve_newton_def)
next
  case True
  have "residual_vector (assemble_system p s) = (\<lambda>_. 0)"
    unfolding residual_assemble_system
    by (rule constant_global_residual [OF assms(1-4)]) simp
  with assms(5) have "l2_norm (n_dofs p) (residual_vector (assemble_system p s)) \<le> newton_tolerance p"
    by (simp add: l2_norm_zero)
  with True have "newton_loop p 0 (newton_tolerance p + 1) s =
      Inr (0 + 1, l2_norm (n_dofs p) (residual_vector (assemble_system p s)), assemble_system p s)"
    by (intro newton_loop_converged) simp_all
  then show ?thesis
    by (simp add: solve_newton_def assemble_system_frame)
qed

lemma constant_time_loop:
  assumes "\<forall>t x. forcing_value p t x = 0" and "k = 0 \<or> k = 1"
    and "0 \<le> newton_tolerance p" and "0 < deltat p"
    and "T p - 0.5 * deltat p - time s \<le> real n * deltat p"
    and "represents_constant p (solution s) k"
  shows "\<exists>s'. time_loop p ts s = Some (Inr s') \<and> solution s' = solution s \<and>
           solution_owned s' = solution_owned s \<and>
           (\<exists>evs. trace s' = trace s @ evs \<and> LinearSolve \<notin> set evs \<and>
                  (\<forall>m v. Output m v \<in> set evs \<longrightarrow> v = solution s))"
  using assms(5,6)
proof (induction n arbitrary: s ts)
  case 0
  then have "time_loop p ts s = Some (Inr s)"
    by (intro time_loop_exit) simp
  then show ?case
    by simp
next
  case (Suc n)
  show ?case
  proof (cases "time s < T p - 0.5 * deltat p")
    case False
    then have "time_loop p ts s = Some (Inr s)"
      by (rule time_loop_exit)
    then show ?thesis
      by simp
  next
    case True
    let ?s1 = "s\<lparr>time := time s + deltat p, solution_old := solution s\<rparr>"
    from Suc.prems(2) have "represents_constant p (solution ?s1) k"
      "represents_constant p (solution_old ?s1) k"
      by simp_all
    from constant_newton [OF assms(1,2) this assms(3)] obtain s2
      where s2: "solve_newton p ?s1 = Inr s2" "solution s2 = solution s"
        "solution_owned s2 = solution_owned s"
        "trace s2 = trace s \<or> trace s2 = trace s @ [SetForcingTime (time s + deltat p)]"
      by auto
    let ?s3 = "output_step (ts + 1) s2"
    from solve_newton_effect(1) [OF s2(1)] have t3: "time ?s3 = time s + deltat p"
      by (simp add: output_step_def)
    from s2 have sol3: "solution ?s3 = solution s" "solution_owned ?s3 = solution_owned s"
      by (simp_all add: output_step_def)
    from s2(2,4) obtain evs0 where tr3: "trace ?s3 = trace s @ evs0" "LinearSolve \<notin> set evs0"
      "\<forall>m v. Output m v \<in> set evs0 \<longrightarrow> v = solution s"
      by (auto simp: output_step_def)
    from Suc.prems(1) have "T p - 0.5 * deltat p - (time s + deltat p) \<le> real n * deltat p"
      by (simp add: algebra_simps)
    then have "T p - 0.5 * deltat p - time ?s3 \<le> real n * deltat p"
      by (simp only: t3)
    moreover from Suc.prems(2) have "represents_constant p (solution ?s3) k"
      by (simp only: sol3)
    ultimately obtain s' evs where fin: "time_loop p (ts + 1) ?s3 = Some (Inr s')"
      "solution s' = solution ?s3" "solution_owned s' = solution_owned ?s3"
      "trace s' = trace ?s3 @ evs" "LinearSolve \<notin> set evs"
      "\<forall>m v. Output m v \<in> set evs \<longrightarrow> v = solution ?s3"
      using Suc.IH [of ?s3 "ts + 1"] by blast
    from True s2(1) fin(1) have "time_loop p ts s = Some (Inr s')"
      by (simp add: time_loop_step)
    moreover from fin tr3 sol3 have "trace s' = trace s @ (evs0 @ evs)"
      "LinearSolve \<notin> set (evs0 @ evs)"
      "\<forall>m v. Output m v \<in> set (evs0 @ evs) \<longrightarrow> v = solution s"
      by auto
    ultimately show ?thesis
      using fin(2,3) sol3 by metis
  qed
qed

text \<open>
  Claim C3. Let the forcing term be zero everywhere and \<open>k\<close> be 0 or 1. If
  \<^verbatim>\<open>solution\<close> and \<^verbatim>\<open>solution_old\<close> both represent the constant field \<open>k\<close>, the residual
  vector \<^verbatim>\<open>assemble_system\<close> leaves is zero, and so is what every quadrature node of every
  locally owned cell adds to the element residual. Consequently, with a positive Newton
  tolerance, the Newton loop of a timestep started from a \<^verbatim>\<open>solution\<close> that represents
  \<open>k\<close> solves no linear system and leaves \<^verbatim>\<open>solution\<close> and \<^verbatim>\<open>solution_owned\<close> as they
  were; and if the interpolated initial condition represents \<open>k\<close> (and \<open>deltat > 0\<close>, so
  that the time loop ends), \<^verbatim>\<open>solve\<close> returns with \<^verbatim>\<open>solution\<close> still the interpolated
  initial condition, having solved no linear system and written that same field in every
  output file. The zero vector represents the field 0 on every mesh (\<open>represents_zero\<close>);
  the vector of ones represents the field 1 when the shape functions of every cell sum
  to one and their gradients to zero, as on the example.
\<close>

theorem constant_solution_stays:
  assumes "\<forall>t x. forcing_value p t x = 0" and "k = 0 \<or> k = 1"
  shows "(represents_constant p (solution s) k \<and> represents_constant p (solution_old s) k \<longrightarrow>
            residual_vector (assemble_system p s) = (\<lambda>_. 0) \<and>
            (\<forall>c\<in>set (cells p). is_locally_owned c \<longrightarrow>
               (\<forall>q<n_q p. \<forall>i. residual_term p c (time s) (get_function_values p c (solution s))
                   (get_function_gradients p c (solution s))
                   (get_function_values p c (solution_old s)) q i = 0))) \<and>
         (represents_constant p (solution s) k \<and> 0 < newton_tolerance p \<longrightarrow>
            (\<exists>s'. solve_newton p (s\<lparr>time := time s + deltat p, solution_old := solution s\<rparr>) =
                    Inr s' \<and>
                  solution s' = solution s \<and> solution_owned s' = solution_owned s \<and>
                  (trace s' = trace s \<or>
                   trace s' = trace s @ [SetForcingTime (time s + deltat p)]))) \<and>
         (represents_constant p (interpolate p) k \<and> 0 < newton_tolerance p \<and> 0 < deltat p \<longrightarrow>
            (\<exists>s'. solve p s = Some (Inr s') \<and> solution s' = interpolate p \<and>
                  solution_owned s' = interpolate p \<and>
                  (\<exists>evs. trace s' = trace s @ evs \<and> LinearSolve \<notin> set evs \<and>
                         (\<forall>m v. Output m v \<in> set evs \<longrightarrow> v = interpolate p))))"
proof (intro conjI impI)
  assume rep: "represents_constant p (solution s) k \<and> represents_constant p (solution_old s) k"
  then show "residual_vector (assemble_system p s) = (\<lambda>_. 0)"
    unfolding residual_assemble_system
    by (intro constant_global_residual [OF assms]) simp_all
  from rep show "\<forall>c\<in>set (cells p). is_locally_owned c \<longrightarrow>
      (\<forall>q<n_q p. \<forall>i. residual_term p c (time s) (get_function_values p c (solution s))
          (get_function_gradients p c (solution s))
          (get_function_values p c (solution_old s)) q i = 0)"
    by (intro ballI impI allI constant_residual_term [OF assms])
       (simp_all add: represents_constant_def)
next
  assume hyp: "represents_constant p (solution s) k \<and> 0 < newton_tolerance p"
  let ?s1 = "s\<lparr>time := time s + deltat p, solution_old := solution s\<rparr>"
  from hyp have "represents_constant p (solution ?s1) k"
    "represents_constant p (solution_old ?s1) k" "0 \<le> newton_tolerance p"
    by simp_all
  from constant_newton [OF assms this]
  show "\<exists>s'. solve_newton p ?s1 = Inr s' \<and>
          solution s' = solution s \<and> solution_owned s' = solution_owned s \<and>
          (trace s' = trace s \<or> trace s' = trace s @ [SetForcingTime (time s + deltat p)])"
    by simp
next
  assume hyp: "represents_constant p (interpolate p) k \<and> 0 < newton_tolerance p \<and> 0 < deltat p"
  let ?s0 = "output_step 0 (s\<lparr>time := 0, solution_owned := interpolate p, solution := interpolate p\<rparr>)"
  have solve: "solve p s = time_loop p 0 ?s0"
    by (simp add: solve_def Let_def)
  have s0: "solution ?s0 = interpolate p" "solution_owned ?s0 = interpolate p"
    "trace ?s0 = trace s @ [Output 0 (interpolate p)]"
    by (simp_all add: output_step_def)
  obtain n where "(T p - 0.5 * deltat p - time ?s0) / deltat p \<le> real n"
    using real_arch_simple by blast
  with hyp have "T p - 0.5 * deltat p - time ?s0 \<le> real n * deltat p"
    by (simp add: pos_divide_le_eq)
  moreover from hyp have "represents_constant p (solution ?s0) k"
    by (simp only: s0)
  moreover from hyp have "0 \<le> newton_tolerance p" "0 < deltat p"
    by simp_all
  ultimately obtain s' evs where fin: "time_loop p 0 ?s0 = Some (Inr s')"
    "solution s' = solution ?s0" "solution_owned s' = solution_owned ?s0"
    "trace s' = trace ?s0 @ evs" "LinearSolve \<notin> set evs"
    "\<forall>m v. Output m v \<in> set evs \<longrightarrow> v = solution ?s0"
    using constant_time_loop [OF assms, where n = n and s = ?s0 and ts = 0] by blast
  then have "trace s' = trace s @ (Output 0 (interpolate p) # evs)"
    "LinearSolve \<notin> set (Output 0 (interpolate p) # evs)"
    "\<forall>m v. Output m v \<in> set (Output 0 (interpolate p) # evs) \<longrightarrow> v = interpolate p"
    by (auto simp: s0)
  with fin(1,2,3) solve
  show "\<exists>s'. solve p s = Some (Inr s') \<and> solution s' = interpolate p \<and>
          solution_owned s' = interpolate p \<and>
          (\<exists>evs. trace s' = trace s @ evs \<and> LinearSolve \<notin> set evs \<and>
                 (\<forall>m v. Output m v \<in> set evs \<longrightarrow> v = interpolate p))"
    unfolding s0 by metis
qed

lemma example_represents_one: "represents_constant example_problem (\<lambda>_. 1) 1"
  by (simp add: represents_constant_def example_defs get_function_values_def
      get_function_gradients_def eval_nat_numeral)

theorem constant_solution_stays_witness:
  "residual_vector (assemble_system example_problem
      (example_state\<lparr>solution := (\<lambda>_. 1), solution_old := (\<lambda>_. 1)\<rparr>)) = (\<lambda>_. 0) \<and>
   (\<exists>s'. solve example_problem example_state = Some (Inr s') \<and>
         solution s' = interpolate example_problem \<and>
         solution_owned s' = interpolate example_problem \<and>
         (\<exists>evs. trace s' = trace example_state @ evs \<and> LinearSolve \<notin> set evs \<and>
                (\<forall>m v. Output m v \<in> set evs \<longrightarrow> v = interpolate example_problem))) \<and>
   (\<exists>s'. solve (example_problem\<lparr>u_0 := (\<lambda>x. 0)\<rparr>) example_state = Some (Inr s') \<and>
         solution s' = (\<lambda>_. 0) \<and> solution_owned s' = (\<lambda>_. 0))"
proof -
  have f: "\<forall>t x. forcing_value example_problem t x = 0"
    "\<forall>t x. forcing_value (example_problem\<lparr>u_0 := (\<lambda>x. 0)\<rparr>) t x = 0"
    by (simp_all add: example_problem_def)
  have i1: "interpolate example_problem = (\<lambda>_. 1)"
    and i0: "interpolate (example_problem\<lparr>u_0 := (\<lambda>x. 0)\<rparr>) = (\<lambda>_. 0)"
    by (simp_all add: interpolate_def example_problem_def)
  have pos: "0 < newton_tolerance example_problem" "0 < deltat example_problem"
    "0 < newton_tolerance (example_problem\<lparr>u_0 := (\<lambda>x. 0)\<rparr>)"
    "0 < deltat (example_problem\<lparr>u_0 := (\<lambda>x. 0)\<rparr>)"
    by (simp_all add: example_problem_def)
  have r1: "represents_constant example_problem (interpolate example_problem) 1"
    "represents_constant example_problem
       (solution (example_state\<lparr>solution := (\<lambda>_. 1), solution_old := (\<lambda>_. 1)\<rparr>)) 1"
    "represents_constant example_problem
       (solution_old (example_state\<lparr>solution := (\<lambda>_. 1), solution_old := (\<lambda>_. 1)\<rparr>)) 1"
    by (simp_all add: i1 example_represents_one)
  have r0: "represents_constant (example_problem\<lparr>u_0 := (\<lambda>x. 0)\<rparr>)
      (interpolate (example_problem\<lparr>u_0 := (\<lambda>x. 0)\<rparr>)) 0"
    unfolding i0 by (rule represents_zero)
  from constant_solution_stays [OF f(1), where k = 1 and
      s = "example_state\<lparr>solution := (\<lambda>_. 1), solution_old := (\<lambda>_. 1)\<rparr>"]
    constant_solution_stays [OF f(1), where k = 1 and s = example_state] r1 pos
  have a: "residual_vector (assemble_system example_problem
      (example_state\<lparr>solution := (\<lambda>_. 1), solution_old := (\<lambda>_. 1)\<rparr>)) = (\<lambda>_. 0)"
    and b: "\<exists>s'. solve example_problem example_state = Some (Inr s') \<and>
         solution s' = interpolate example_problem \<and>
         solution_owned s' = interpolate example_problem \<and>
         (\<exists>evs. trace s' = trace example_state @ evs \<and> LinearSolve \<notin> set evs \<and>
                (\<forall>m v. Output m v \<in> set evs \<longrightarrow> v = interpolate example_problem))"
    by simp_all
  from constant_solution_stays [OF f(2), where k = 0 and s = example_state] r0 pos
  have "\<exists>s'. solve (example_problem\<lparr>u_0 := (\<lambda>x. 0)\<rparr>) example_state = Some (Inr s') \<and>
         solution s' = (\<lambda>_. 0) \<and> solution_owned s' = (\<lambda>_. 0)"
    unfolding i0 by blast
  with a b show ?thesis
    by blast
qed

subsection \<open>The time of the forcing term\<close>

lemma vector_add_apply:
  "vector_add n v idx cell_v g = v g + (\<Sum>i<n. if idx ! i = g then cell_v i else 0)"
  unfolding vector_add_def by (induction n arbitrary: g) simp_all

lemma global_residual_apply:
  "global_residual p tf sol sol_old cs r g =
     r g + (\<Sum>c\<leftarrow>cs. if is_locally_owned c
                     then (\<Sum>i<dofs_per_cell p. if dof_indices c ! i = g
                             then snd (assemble_cell p tf sol sol_old c) i else 0)
                     else 0)"
proof (induction cs arbitrary: r)
  case Nil
  then show ?case by (simp add: global_residual_def)
next
  case (Cons c cs)
  have "global_residual p tf sol sol_old (c # cs) r =
          global_residual p tf sol sol_old cs
            (if is_locally_owned c
             then vector_add (dofs_per_cell p) r (dof_indices c)
                    (snd (assemble_cell p tf sol sol_old c))
             else r)"
    by (simp add: global_residual_def)
  then show ?case
    by (simp add: Cons.IH vector_add_apply)
qed

text \<open>
  Claim C9. An assembly calls \<^verbatim>\<open>forcing_term.set_time(time)\<close> exactly once (its one event)
  and leaves the forcing term at \<^verbatim>\<open>time\<close>, whatever time the forcing term held before.
  A round of the time loop advances \<^verbatim>\<open>time\<close> by \<open>deltat\<close> before it calls
  \<^verbatim>\<open>solve_newton\<close>, and in every state \<^verbatim>\<open>solve_newton\<close> can be in during the timestep
  (so before every assembly of every Newton iteration) \<^verbatim>\<open>time\<close> is that new time, every
  \<^verbatim>\<open>set_time\<close> event of the step carries it, and the residual vector an assembly leaves
  has, at every DoF \<open>g\<close>, the sum over the locally owned cells, their local indices \<open>i\<close>
  that map to \<open>g\<close> and their quadrature nodes \<open>q\<close> of the time-derivative, diffusion and
  reaction terms and of the forcing term
  \<open>f(x\<^sub>q, t\<^sup>n + deltat) \<cdot> shape_value(i, q) \<cdot> JxW(q)\<close>: the forcing is taken at the
  end-of-step time.
\<close>

theorem forcing_at_new_time:
  "trace (assemble_system p s) = trace s @ [SetForcingTime (time s)] \<and>
   forcing_term_time (assemble_system p s) = time s \<and>
   assemble_system p (s\<lparr>forcing_term_time := t'\<rparr>) = assemble_system p s \<and>
   residual_vector (assemble_system p s) =
     global_residual p (time s) (solution s) (solution_old s) (cells p) (\<lambda>_. 0) \<and>
   (time s < T p - 0.5 * deltat p \<longrightarrow>
      time_loop p ts s =
        (case solve_newton p (s\<lparr>time := time s + deltat p, solution_old := solution s\<rparr>) of
           Inl e \<Rightarrow> Some (Inl e)
         | Inr s' \<Rightarrow> time_loop p (ts + 1) (output_step (ts + 1) s'))) \<and>
   (newton_reachable p (s\<lparr>time := time s + deltat p, solution_old := solution s\<rparr>) s' \<longrightarrow>
      time s' = time s + deltat p \<and>
      (\<exists>evs. trace s' = trace s @ evs \<and>
             set evs \<subseteq> {SetForcingTime (time s + deltat p), LinearSolve}) \<and>
      residual_vector (assemble_system p s') g =
        (\<Sum>c\<leftarrow>cells p.
           if is_locally_owned c
           then (\<Sum>i<dofs_per_cell p.
                   if dof_indices c ! i = g
                   then (\<Sum>q<n_q p.
                           - ((get_function_values p c (solution s') q -
                               get_function_values p c (solution s) q) / deltat p *
                              shape_value c i q * JxW c q)
                           - scalar_product
                               (contract (d_value p (quadrature_point c q)) (shape_grad c i q))
                               (get_function_gradients p c (solution s') q) * JxW c q
                           + alpha p * get_function_values p c (solution s') q *
                               (1 - get_function_values p c (solution s') q) *
                               shape_value c i q * JxW c q
                           + forcing_value p (time s + deltat p) (quadrature_point c q) *
                               shape_value c i q * JxW c q)
                   else 0)
           else 0))"
proof -
  let ?s0 = "s\<lparr>time := time s + deltat p, solution_old := solution s\<rparr>"
  have frame: "time s' = time s + deltat p" "solution_old s' = solution s"
    if "newton_reachable p ?s0 s'"
    using newton_reachable_frame [OF that] by simp_all
  have "residual_vector (assemble_system p s') g =
        (\<Sum>c\<leftarrow>cells p.
           if is_locally_owned c
           then (\<Sum>i<dofs_per_cell p.
                   if dof_indices c ! i = g
                   then (\<Sum>q<n_q p. residual_term p c (time s')
                           (get_function_values p c (solution s'))
                           (get_function_gradients p c (solution s'))
                           (get_function_values p c (solution_old s')) q i)
                   else 0)
           else 0)"
    by (simp add: residual_assemble_system global_residual_apply snd_assemble_cell
        cong: if_cong)
  then have explicit: "residual_vector (assemble_system p s') g =
        (\<Sum>c\<leftarrow>cells p.
           if is_locally_owned c
           then (\<Sum>i<dofs_per_cell p.
                   if dof_indices c ! i = g
                   then (\<Sum>q<n_q p.
                           - ((get_function_values p c (solution s') q -
                               get_function_values p c (solution_old s') q) / deltat p *
                              shape_value c i q * JxW c q)
                           - scalar_product
                               (contract (d_value p (quadrature_point c q)) (shape_grad c i q))
                               (get_function_gradients p c (solution s') q) * JxW c q
                           + alpha p * get_function_values p c (solution s') q *
                               (1 - get_function_values p c (solution s') q) *
                               shape_value c i q * JxW c q
                           + forcing_value p (time s') (quadrature_point c q) *
                               shape_value c i q * JxW c q)
                   else 0)
           else 0)"
    by (simp only: residual_term_def)
  have step: "time s < T p - 0.5 * deltat p \<longrightarrow>
      time_loop p ts s =
        (case solve_newton p ?s0 of
           Inl e \<Rightarrow> Some (Inl e)
         | Inr s' \<Rightarrow> time_loop p (ts + 1) (output_step (ts + 1) s'))"
    by (simp add: time_loop_step)
  have events: "\<exists>evs. trace s' = trace s @ evs \<and>
             set evs \<subseteq> {SetForcingTime (time s + deltat p), LinearSolve}"
    if "newton_reachable p ?s0 s'"
    using newton_reachable_trace [OF that] by simp
  show ?thesis
  proof (intro conjI impI)
    assume r: "newton_reachable p ?s0 s'"
    from explicit show "residual_vector (assemble_system p s') g =
        (\<Sum>c\<leftarrow>cells p.
           if is_locally_owned c
           then (\<Sum>i<dofs_per_cell p.
                   if dof_indices c ! i = g
                   then (\<Sum>q<n_q p.
                           - ((get_function_values p c (solution s') q -
                               get_function_values p c (solution s) q) / deltat p *
                              shape_value c i q * JxW c q)
                           - scalar_product
                               (contract (d_value p (quadrature_point c q)) (shape_grad c i q))
                               (get_function_gradients p c (solution s') q) * JxW c q
                           + alpha p * get_function_values p c (solution s') q *
                               (1 - get_function_values p c (solution s') q) *
                               shape_value c i q * JxW c q
                           + forcing_value p (time s + deltat p) (quadrature_point c q) *
                               shape_value c i q * JxW c q)
                   else 0)
           else 0)"
      by (simp only: frame [OF r])
  qed (use step frame events in \<open>simp_all add: assemble_system_frame
        assemble_system_stale_time residual_assemble_system\<close>)
qed

theorem forcing_at_new_time_witness:
  "time_loop timed_problem 0 example_state =
     (case solve_newton timed_problem
             (example_state\<lparr>time := time example_state + deltat timed_problem,
                            solution_old := solution example_state\<rparr>) of
        Inl e \<Rightarrow> Some (Inl e)
      | Inr s' \<Rightarrow> time_loop timed_problem (0 + 1) (output_step (0 + 1) s')) \<and>
   time (example_state\<lparr>time := time example_state + deltat timed_problem,
                      solution_old := solution example_state\<rparr>) = 1 \<and>
   residual_vector (assemble_system timed_problem
      (example_state\<lparr>time := time example_state + deltat timed_problem,
                     solution_old := solution example_state\<rparr>)) 0 = 1 / 2"
proof -
  let ?s0 = "example_state\<lparr>time := time example_state + deltat timed_problem,
                           solution_old := solution example_state\<rparr>"
  have "time example_state < T timed_problem - 0.5 * deltat timed_problem"
    by (simp add: example_defs timed_problem_def)
  moreover have "newton_reachable timed_problem ?s0 ?s0"
    by (rule start)
  ultimately have "time_loop timed_problem 0 example_state =
     (case solve_newton timed_problem ?s0 of
        Inl e \<Rightarrow> Some (Inl e)
      | Inr s' \<Rightarrow> time_loop timed_problem (0 + 1) (output_step (0 + 1) s'))"
    and "time ?s0 = time example_state + deltat timed_problem"
    and "residual_vector (assemble_system timed_problem ?s0) 0 =
        (\<Sum>c\<leftarrow>cells timed_problem.
           if is_locally_owned c
           then (\<Sum>i<dofs_per_cell timed_problem.
                   if dof_indices c ! i = 0
                   then (\<Sum>q<n_q timed_problem.
                           - ((get_function_values timed_problem c (solution ?s0) q -
                               get_function_values timed_problem c (solution example_state) q) /
                              deltat timed_problem * shape_value c i q * JxW c q)
                           - scalar_product
                               (contract (d_value timed_problem (quadrature_point c q))
                                  (shape_grad c i q))
                               (get_function_gradients timed_problem c (solution ?s0) q) * JxW c q
                           + alpha timed_problem * get_function_values timed_problem c (solution ?s0) q *
                               (1 - get_function_values timed_problem c (solution ?s0) q) *
                               shape_value c i q * JxW c q
                           + forcing_value timed_problem (time example_state + deltat timed_problem)
                               (quadrature_point c q) *
                               shape_value c i q * JxW c q)
                   else 0)
           else 0)"
    using forcing_at_new_time [of timed_problem example_state _ 0 ?s0 0]
    by simp_all
  then show ?thesis
    by (simp add: example_defs timed_problem_def get_function_values_def
        get_function_gradients_def eval_nat_numeral lessThan_Suc)
qed

section \<open>The element block is the derivative of the element residual\<close>









end
